theory Spec2Isabelle
  imports Complex_Main
begin

section \<open>Data model\<close>

text \<open>
  The rules library (chess.js) is an external collaborator of the code under
  verification; its operations are parameters of the model.
\<close>

subsection \<open>Numbers\<close>

text \<open>
  A JavaScript number is an IEEE 754 binary64 value. The model holds a number as the
  real number it denotes. Comparison, negation and absolute value are exact on such
  values; subtraction and division produce the exact result rounded to the nearest
  binary64 value, ties to the even significand, and a decimal literal of the source
  denotes the rounding of its decimal value. \<open>double\<close> is this rounding: the spacing of
  the binary64 values around \<open>x\<close> is \<open>ulp x\<close>, with 53 significant bits down to the
  exponent -1022 and the fixed spacing \<open>2 powi (- 1074)\<close> below. Magnitudes from
  \<open>2 powi 1024\<close> on, which a program holds as infinities, and NaN are outside the model.
\<close>

definition expo :: "real \<Rightarrow> int" where
  "expo x = max (- 1022) \<lfloor>log 2 \<bar>x\<bar>\<rfloor>"

definition ulp :: "real \<Rightarrow> real" where
  "ulp x = 2 powi (expo x - 52)"

definition round_even :: "real \<Rightarrow> int" where
  "round_even q =
     (let f = \<lfloor>q\<rfloor>; r = q - of_int f
      in if r < 1 / 2 then f
         else if r > 1 / 2 then f + 1
         else if even f then f else f + 1)"

definition double :: "real \<Rightarrow> real" where
  "double x = sgn x * (of_int (round_even (\<bar>x\<bar> / ulp x)) * ulp x)"

text \<open>The operators \<open>-\<close> and \<open>/\<close> on numbers, and \<open>parseInt\<close> on the digits of an integer.\<close>

definition js_minus :: "real \<Rightarrow> real \<Rightarrow> real" where
  "js_minus x y = double (x - y)"

definition js_div :: "real \<Rightarrow> real \<Rightarrow> real" where
  "js_div x y = double (x / y)"

definition parseInt :: "int \<Rightarrow> real" where
  "parseInt n = double (of_int n)"

subsection \<open>Moves\<close>

datatype color = White | Black

text \<open>One entry of \<open>game.history({verbose: true})\<close>.\<close>

record verbose_move =
  h_san :: string
  h_from :: string
  h_to :: string
  h_color :: color
  h_piece :: char

text \<open>One entry of \<open>ChessLogic.squares\<close>: \<open>{from, to, color, piece}\<close>.\<close>

record square_rec =
  sq_from :: string
  sq_to :: string
  sq_color :: color
  sq_piece :: char

text \<open>The interface of a chess.js game object, with \<open>'g\<close> the state of the object.\<close>

record 'g chess_api =
  new_Chess :: 'g
  game_reset :: "'g \<Rightarrow> 'g"
  game_fen :: "'g \<Rightarrow> string"
  load_pgn :: "'g \<Rightarrow> string \<Rightarrow> bool \<times> 'g"
  history :: "'g \<Rightarrow> verbose_move list"
  game_move :: "'g \<Rightarrow> string \<Rightarrow> 'g"

section \<open>ChessLogic\<close>

record ('g, 'c) ChessLogic =
  game :: 'g
  fens :: "string list"
  sans :: "string list"
  squares :: "square_rec list"
  idx :: int
  classifications :: "'c list"

definition snapshot :: "'g chess_api \<Rightarrow> ('g, 'c) ChessLogic \<Rightarrow> ('g, 'c) ChessLogic" where
  "snapshot R l = l\<lparr>fens := fens l @ [game_fen R (game l)]\<rparr>"

definition ChessLogic_new :: "'g chess_api \<Rightarrow> ('g, 'c) ChessLogic" where
  "ChessLogic_new R =
     snapshot R \<lparr>game = new_Chess R, fens = [], sans = [], squares = [], idx = 0,
                 classifications = []\<rparr>"

definition reset :: "'g chess_api \<Rightarrow> ('g, 'c) ChessLogic \<Rightarrow> ('g, 'c) ChessLogic" where
  "reset R l =
     snapshot R (l\<lparr>game := game_reset R (game l), fens := [], sans := [], squares := [],
                   idx := 0, classifications := []\<rparr>)"

text \<open>The body of the \<open>for (const m of moves)\<close> loop of \<open>loadPGN\<close>.\<close>

definition replay_move :: "'g chess_api \<Rightarrow> verbose_move \<Rightarrow> ('g, 'c) ChessLogic \<Rightarrow> ('g, 'c) ChessLogic" where
  "replay_move R m l =
     snapshot R (l\<lparr>game := game_move R (game l) (h_san m),
                   sans := sans l @ [h_san m],
                   squares := squares l @
                     [\<lparr>sq_from = h_from m, sq_to = h_to m, sq_color = h_color m,
                       sq_piece = h_piece m\<rparr>]\<rparr>)"

definition loadPGN :: "'g chess_api \<Rightarrow> ('g, 'c) ChessLogic \<Rightarrow> string \<Rightarrow> bool \<times> ('g, 'c) ChessLogic" where
  "loadPGN R l pgn =
     (let l1 = reset R l;
          (ok, g) = load_pgn R (game l1) pgn;
          l2 = l1\<lparr>game := g\<rparr>
      in if \<not> ok then (False, l2)
         else
           let moves = history R (game l2);
               l3 = reset R l2;
               l4 = fold (replay_move R) moves l3
           in (True, l4\<lparr>idx := int (length (fens l4)) - 1\<rparr>))"

text \<open>\<open>fen()\<close> reads \<open>fens[idx]\<close>, which is \<open>undefined\<close> out of range.\<close>

definition logic_fen :: "('g, 'c) ChessLogic \<Rightarrow> string option" where
  "logic_fen l = (if 0 \<le> idx l \<and> idx l < int (length (fens l)) then Some (fens l ! nat (idx l)) else None)"

definition goStart :: "('g, 'c) ChessLogic \<Rightarrow> ('g, 'c) ChessLogic" where
  "goStart l = l\<lparr>idx := 0\<rparr>"

definition goEnd :: "('g, 'c) ChessLogic \<Rightarrow> ('g, 'c) ChessLogic" where
  "goEnd l = l\<lparr>idx := int (length (fens l)) - 1\<rparr>"

definition goNext :: "('g, 'c) ChessLogic \<Rightarrow> ('g, 'c) ChessLogic" where
  "goNext l = (if idx l < int (length (fens l)) - 1 then l\<lparr>idx := idx l + 1\<rparr> else l)"

definition goPrev :: "('g, 'c) ChessLogic \<Rightarrow> ('g, 'c) ChessLogic" where
  "goPrev l = (if idx l > 0 then l\<lparr>idx := idx l - 1\<rparr> else l)"

definition goTo :: "int \<Rightarrow> ('g, 'c) ChessLogic \<Rightarrow> ('g, 'c) ChessLogic" where
  "goTo i l = (if i \<ge> 0 \<and> i < int (length (fens l)) then l\<lparr>idx := i\<rparr> else l)"

text \<open>The public operations, and a run of a sequence of them on an instance.\<close>

datatype logic_op = Reset | LoadPGN string | GoStart | GoEnd | GoNext | GoPrev | GoTo int

fun apply_logic_op :: "'g chess_api \<Rightarrow> logic_op \<Rightarrow> ('g, 'c) ChessLogic \<Rightarrow> ('g, 'c) ChessLogic" where
  "apply_logic_op R Reset l = reset R l"
| "apply_logic_op R (LoadPGN pgn) l = snd (loadPGN R l pgn)"
| "apply_logic_op R GoStart l = goStart l"
| "apply_logic_op R GoEnd l = goEnd l"
| "apply_logic_op R GoNext l = goNext l"
| "apply_logic_op R GoPrev l = goPrev l"
| "apply_logic_op R (GoTo i) l = goTo i l"

definition run_logic :: "'g chess_api \<Rightarrow> logic_op list \<Rightarrow> ('g, 'c) ChessLogic \<Rightarrow> ('g, 'c) ChessLogic" where
  "run_logic R ops l = fold (apply_logic_op R) ops l"

definition cursor_ok :: "('g, 'c) ChessLogic \<Rightarrow> bool" where
  "cursor_ok l = (fens l \<noteq> [] \<and> 0 \<le> idx l \<and> idx l \<le> int (length (fens l)) - 1)"

text \<open>
  A stand-in for chess.js on the two transcripts used in the examples below: the game
  object is the list of moves played; \<open>1. e4\<close> parses to the single move e4 and every
  other transcript is rejected.
\<close>

definition start_fen :: string where
  "start_fen = ''rnbqkbnr/pppppppp/8/8/8/8/PPPPPPPP/RNBQKBNR w KQkq - 0 1''"

definition e4_fen :: string where
  "e4_fen = ''rnbqkbnr/pppppppp/8/8/4P3/8/PPPP1PPP/RNBQKBNR b KQkq e3 0 1''"

definition e4_move :: verbose_move where
  "e4_move = \<lparr>h_san = ''e4'', h_from = ''e2'', h_to = ''e4'', h_color = White, h_piece = CHR ''p''\<rparr>"

definition stub_chess :: "verbose_move list chess_api" where
  "stub_chess =
     \<lparr>new_Chess = [],
      game_reset = (\<lambda>g. []),
      game_fen = (\<lambda>g. if g = [] then start_fen else e4_fen),
      load_pgn = (\<lambda>g pgn. if pgn = ''1. e4'' then (True, [e4_move]) else (False, [])),
      history = (\<lambda>g. g),
      game_move = (\<lambda>g s. g @ [e4_move])\<rparr>"

section \<open>Game analysis\<close>

subsection \<open>String operations of the host language\<close>

definition startsWith :: "string \<Rightarrow> string \<Rightarrow> bool" where
  "startsWith s p = (take (length p) s = p)"

fun str_includes :: "string \<Rightarrow> string \<Rightarrow> bool" where
  "str_includes [] p = (p = [])"
| "str_includes (c # cs) p = (startsWith (c # cs) p \<or> str_includes cs p)"

text \<open>\<open>s.split(' ')[0]\<close>: the text before the first space.\<close>

definition split_first :: "string \<Rightarrow> string" where
  "split_first s = takeWhile (\<lambda>c. c \<noteq> CHR '' '') s"

definition substring :: "string \<Rightarrow> nat \<Rightarrow> nat \<Rightarrow> string" where
  "substring s a b = take (b - a) (drop a s)"

fun join_sp :: "string list \<Rightarrow> string" where
  "join_sp [] = []"
| "join_sp [s] = s"
| "join_sp (s # t # ts) = s @ '' '' @ join_sp (t # ts)"

text \<open>Truthiness of a string-or-null value: neither null nor the empty string.\<close>

definition truthy :: "string option \<Rightarrow> bool" where
  "truthy v = (case v of None \<Rightarrow> False | Some s \<Rightarrow> s \<noteq> [])"

subsection \<open>Classification data\<close>

datatype tier = Brilliant | Great | Best | Good | Book | Inaccuracy | Mistake | Blunder

datatype phase = Opening | Endgame | Middlegame

datatype error = TypeError

text \<open>One entry of \<open>evals\<close>; \<open>pv\<close> is absent on a synthesized entry.\<close>

record eval =
  score :: real
  isMate :: bool
  raw :: "real option"
  pv :: "string option"

text \<open>The value an evaluation promise resolves with.\<close>

record engine_result =
  res_depth :: nat
  res_score :: "real option"
  res_isMate :: bool
  res_bestMove :: "string option"
  res_pv :: "string option"

record piece_on =
  pc_type :: char
  pc_color :: color

text \<open>
  The operations of a chess.js object built from a FEN, \<open>new Chess(fen)\<close>, as functions
  of the FEN. \<open>move_san fen from to promotion\<close> is the SAN of the move object returned by
  \<open>move\<close>, and \<open>None\<close> where \<open>move\<close> returns null or throws.
\<close>

record fen_api =
  turn :: "string \<Rightarrow> color"
  game_over :: "string \<Rightarrow> bool"
  in_checkmate :: "string \<Rightarrow> bool"
  get :: "string \<Rightarrow> string \<Rightarrow> piece_on option"
  move_san :: "string \<Rightarrow> string \<Rightarrow> string \<Rightarrow> string option \<Rightarrow> string option"

record opening_entry =
  op_prefix :: string
  op_name :: string
  op_desc :: string

record classification =
  c_cls :: tier
  c_cpLoss :: real
  c_evalBefore :: real
  c_evalAfter :: real
  c_engineBest :: "string option"
  c_engineBestSan :: "string option"
  c_enginePv :: "string option"
  c_from :: string
  c_to :: string
  c_piece :: char
  c_tags :: "string list"
  c_phase :: phase
  c_matBefore :: int
  c_matAfter :: int
  c_opening :: "opening_entry option"
  c_hungPiece :: "char option"

subsection \<open>Material, phase, openings\<close>

definition vals :: "char \<Rightarrow> int option" where
  "vals = map_of
     [(CHR ''P'', 1), (CHR ''N'', 3), (CHR ''B'', 3), (CHR ''R'', 5), (CHR ''Q'', 9),
      (CHR ''p'', -1), (CHR ''n'', -3), (CHR ''b'', -3), (CHR ''r'', -5), (CHR ''q'', -9)]"

definition getMaterialBalance :: "string \<Rightarrow> int" where
  "getMaterialBalance f =
     (let pieces = split_first f
      in fold (\<lambda>c bal. case vals c of None \<Rightarrow> bal | Some v \<Rightarrow> if v = 0 then bal else bal + v)
           pieces 0)"

definition getGamePhase :: "string \<Rightarrow> nat \<Rightarrow> phase" where
  "getGamePhase f moveIndex =
     (let pieces = split_first f;
          majorMinorCount = length (filter (\<lambda>c. c \<in> set ''NBRQnbrq'') pieces)
      in if moveIndex < 24 \<and> majorMinorCount \<ge> 10 then Opening
         else if majorMinorCount \<le> 6 then Endgame
         else Middlegame)"

text \<open>
  \<open>getOpening\<close> scans the static table \<open>COMMON_OPENINGS\<close>, which is passed as a parameter.
\<close>

definition getOpening :: "opening_entry list \<Rightarrow> string list \<Rightarrow> opening_entry option" where
  "getOpening table sansPrefix =
     (let moveStr = join_sp sansPrefix
      in fst (fold (\<lambda>op (bestMatch, longest).
                      if startsWith moveStr (op_prefix op) \<and> length (op_prefix op) > longest
                      then (Some op, length (op_prefix op)) else (bestMatch, longest))
                table (None, 0 :: nat)))"

subsection \<open>Evaluating every position\<close>

text \<open>
  The parameter \<open>evalAsync\<close> is \<open>engine.evalAsync\<close> as the analyzer sees it: a request for a FEN at a
  depth that, once awaited, has yielded a result and has changed the engine (state
  \<open>'s\<close>). The scan records the requests it issues and the progress reports it makes.
\<close>

record 's scan =
  evals :: "eval list"
  bestMoves :: "string option list"
  engine_state :: 's
  requests :: "(string \<times> nat) list"
  progress :: "(nat \<times> nat) list"

text \<open>ToNumber of a number-or-null value.\<close>

definition to_number :: "real option \<Rightarrow> real" where
  "to_number v = (case v of None \<Rightarrow> 0 | Some x \<Rightarrow> x)"

definition report :: "bool \<Rightarrow> nat \<Rightarrow> nat \<Rightarrow> (nat \<times> nat) list" where
  "report onProgress i n = (if onProgress then [(i, n)] else [])"

text \<open>The body of the first loop of \<open>analyzeFullGame\<close>, for position \<open>i\<close>.\<close>

definition eval_position ::
  "fen_api \<Rightarrow> ('s \<Rightarrow> string \<Rightarrow> nat \<Rightarrow> engine_result \<times> 's) \<Rightarrow> nat \<Rightarrow> bool \<Rightarrow> string list \<Rightarrow>
   nat \<Rightarrow> 's scan \<Rightarrow> 's scan" where
  "eval_position F evalAsync targetDepth onProgress fs i st =
     (let isWhiteTurn = (turn F (fs ! i) = White)
      in if game_over F (fs ! i) then
           let score = (if in_checkmate F (fs ! i) then (if isWhiteTurn then -100 else 100) else 0);
               isMate = in_checkmate F (fs ! i)
           in st\<lparr>evals := evals st @ [\<lparr>score = score, isMate = isMate, raw = Some 0, pv = None\<rparr>],
                 bestMoves := bestMoves st @ [None],
                 progress := progress st @ report onProgress i (length fs)\<rparr>
         else
           let (result, s') = evalAsync (engine_state st) (fs ! i) targetDepth;
               whiteScore = (if isWhiteTurn then to_number (res_score result)
                             else - to_number (res_score result));
               whiteIsMate = res_isMate result
           in st\<lparr>evals := evals st @
                   [\<lparr>score = whiteScore, isMate = whiteIsMate, raw = res_score result,
                     pv = Some (case res_pv result of None \<Rightarrow> [] | Some p \<Rightarrow> p)\<rparr>],
                 bestMoves := bestMoves st @ [res_bestMove result],
                 engine_state := s',
                 requests := requests st @ [(fs ! i, targetDepth)],
                 progress := progress st @ report onProgress i (length fs)\<rparr>)"

text \<open>The first loop, over the indices of \<open>logic.fens\<close>.\<close>

definition eval_positions ::
  "fen_api \<Rightarrow> ('s \<Rightarrow> string \<Rightarrow> nat \<Rightarrow> engine_result \<times> 's) \<Rightarrow> nat \<Rightarrow> bool \<Rightarrow> string list \<Rightarrow>
   's \<Rightarrow> 's scan" where
  "eval_positions F evalAsync targetDepth onProgress fs s0 =
     fold (eval_position F evalAsync targetDepth onProgress fs) [0..<length fs]
       \<lparr>evals = [], bestMoves = [], engine_state = s0, requests = [], progress = []\<rparr>"

subsection \<open>Classifying one half-move\<close>

definition BOOK_MOVES :: nat where
  "BOOK_MOVES = 6"

text \<open>\<open>e.isMate ? (e.score > 0 ? 100 : -100) : e.score\<close>\<close>

definition mate_collapse :: "eval \<Rightarrow> real" where
  "mate_collapse e = (if isMate e then (if score e > 0 then 100 else -100) else score e)"

text \<open>
  The \<open>if\<close>/\<open>else if\<close> chain that assigns \<open>cls\<close>. Of its thresholds only 0.4 and 1.2
  are not binary64 values. The literal 0.4 denotes a value above 0.4, which is written
  \<open>double 0.4\<close>. The literal 1.2 denotes the largest binary64 value below 1.2, so a
  binary64 value is at most, or above, the one exactly when it is at most, or above, the
  other, and the thresholds at 1.2 are left as they read.
\<close>

definition tier_cascade :: "nat \<Rightarrow> real \<Rightarrow> string option \<Rightarrow> square_rec \<Rightarrow> tier" where
  "tier_cascade m cpLoss engineBest playedMove =
     (if m < BOOK_MOVES \<and> \<bar>cpLoss\<bar> < 0.5 then Book
      else if truthy engineBest \<and> Some (sq_from playedMove @ sq_to playedMove) = engineBest then
        (if cpLoss \<le> -2.0 then Brilliant
         else if cpLoss \<le> -1.0 then Great
         else Best)
      else if cpLoss \<le> -2.0 then Brilliant
      else if cpLoss \<le> -1.0 then Great
      else if cpLoss \<le> double 0.4 then Best
      else if cpLoss \<le> 1.2 then Good
      else if cpLoss \<le> 2.5 then Inaccuracy
      else if cpLoss \<le> 5.0 then Mistake
      else Blunder)"

text \<open>The conversion of the engine's coordinate move to SAN, with its fallback.\<close>

definition engine_best_san :: "fen_api \<Rightarrow> string \<Rightarrow> string option \<Rightarrow> string option" where
  "engine_best_san F f engineBest =
     (case engineBest of
        None \<Rightarrow> None
      | Some eb \<Rightarrow>
          if eb = [] then Some eb
          else (case move_san F f (substring eb 0 2) (substring eb 2 4)
                       (if length eb > 4 then Some (drop 4 eb) else None) of
                  None \<Rightarrow> Some eb
                | Some s \<Rightarrow> if s \<noteq> [] then Some s else Some eb))"

text \<open>\<open>v && v.includes(p)\<close> for a string-or-null value.\<close>

definition opt_includes :: "string option \<Rightarrow> string \<Rightarrow> bool" where
  "opt_includes v p = (case v of None \<Rightarrow> False | Some s \<Rightarrow> s \<noteq> [] \<and> str_includes s p)"

definition opt_startsWith :: "string option \<Rightarrow> string \<Rightarrow> bool" where
  "opt_startsWith v p = (case v of None \<Rightarrow> False | Some s \<Rightarrow> s \<noteq> [] \<and> startsWith s p)"

text \<open>\<open>e.pv ? e.pv.split(' ')[0] : null\<close>\<close>

definition next_best :: "eval \<Rightarrow> string option" where
  "next_best e = (case pv e of None \<Rightarrow> None | Some p \<Rightarrow> if p = [] then None else Some (split_first p))"

text \<open>The regular expression \<open>/^[ah][3456]/\<close>.\<close>

definition edge_pawn_re :: "string \<Rightarrow> bool" where
  "edge_pawn_re s =
     (case s of
        a # b # _ \<Rightarrow> a \<in> set ''ah'' \<and> b \<in> set ''3456''
      | _ \<Rightarrow> False)"

definition context_tags :: "string \<Rightarrow> string list" where
  "context_tags san =
     (if str_includes san ''+'' then [''is_check''] else []) @
     (if str_includes san ''x'' then [''is_capture''] else []) @
     (if str_includes san ''O-O'' then [''is_castling''] else [])"

definition missed_mate_tags :: "bool \<Rightarrow> eval \<Rightarrow> eval \<Rightarrow> string list" where
  "missed_mate_tags isWhiteMove evalBefore evalAfter =
     (if (if isWhiteMove then isMate evalBefore \<and> score evalBefore > 0 \<and> \<not> isMate evalAfter
          else isMate evalBefore \<and> score evalBefore < 0 \<and> \<not> isMate evalAfter)
      then [''missed_mate''] else [])"

definition material_tags :: "int \<Rightarrow> string list" where
  "material_tags matDiff =
     (if matDiff \<le> -3 then [''hanging_piece'']
      else if matDiff < 0 then [''lost_material'']
      else [])"

definition threat_tags :: "string \<Rightarrow> eval \<Rightarrow> eval \<Rightarrow> string list" where
  "threat_tags san evalBefore evalAfter =
     (if opt_includes (pv evalBefore) ''x'' \<or> opt_includes (pv evalBefore) ''+''
      then [''missed_tactic''] else []) @
     (if str_includes san ''K'' then [''weakened_king''] else []) @
     (if opt_includes (pv evalAfter) ''x'' then [''ignored_threat''] else [])"

definition hung_piece :: "fen_api \<Rightarrow> string \<Rightarrow> square_rec \<Rightarrow> eval \<Rightarrow> char option" where
  "hung_piece F fenAfter playedMove evalAfter =
     (case next_best evalAfter of
        None \<Rightarrow> None
      | Some nextBest \<Rightarrow>
          if nextBest \<noteq> [] \<and> length nextBest \<ge> 4 then
            (case get F fenAfter (substring nextBest 2 4) of
               None \<Rightarrow> None
             | Some pieceAtTarget \<Rightarrow>
                 if pc_color pieceAtTarget = sq_color playedMove
                 then Some (pc_type pieceAtTarget) else None)
          else None)"

definition fork_tags :: "string option \<Rightarrow> real \<Rightarrow> real \<Rightarrow> string list" where
  "fork_tags engineBestSan scoreBefore scoreAfter =
     (if opt_startsWith engineBestSan ''N'' \<and> js_minus scoreBefore scoreAfter > 2.0
      then [''missed_fork''] else [])"

definition positional_tags :: "square_rec list \<Rightarrow> nat \<Rightarrow> string \<Rightarrow> phase \<Rightarrow> square_rec \<Rightarrow> string list" where
  "positional_tags sqs m san phase playedMove =
     (if startsWith san ''K'' \<and> \<not> str_includes san ''O-O'' \<and> phase = Opening
      then [''missed_castling''] else []) @
     (if startsWith san ''Q'' \<and> phase = Opening \<and> m < 10 then [''early_queen''] else []) @
     (if startsWith san ''N'' \<and> (str_includes san ''a'' \<or> str_includes san ''h'')
      then [''knight_on_rim''] else []) @
     (if edge_pawn_re san \<and> phase = Opening then [''edge_pawn_push''] else []) @
     (if m \<ge> 2 \<and> phase = Opening then
        (let lastMyMove = sqs ! (m - 2)
         in if sq_piece playedMove = sq_piece lastMyMove \<and> sq_from playedMove = sq_to lastMyMove
            then [''redundant_move''] else [])
      else [])"

definition trade_tags :: "int \<Rightarrow> string \<Rightarrow> bool \<Rightarrow> real \<Rightarrow> string list" where
  "trade_tags matDiff san isWhiteMove scoreBefore =
     (if \<bar>matDiff\<bar> = 0 \<and> str_includes san ''x'' then
        (if (isWhiteMove \<and> scoreBefore < -300) \<or> (\<not> isWhiteMove \<and> scoreBefore > 300)
         then [''bad_trade''] else [''allowed_trade''])
      else [])"

text \<open>The tags pushed inside \<open>if (cpLoss > 1.2)\<close>, in the order of the pushes.\<close>

definition bad_move_tags ::
  "square_rec list \<Rightarrow> nat \<Rightarrow> string \<Rightarrow> phase \<Rightarrow> square_rec \<Rightarrow> eval \<Rightarrow> eval \<Rightarrow> string option \<Rightarrow>
   real \<Rightarrow> real \<Rightarrow> int \<Rightarrow> bool \<Rightarrow> string list" where
  "bad_move_tags sqs m san phase playedMove evalBefore evalAfter engineBestSan
       scoreBefore scoreAfter matDiff isWhiteMove =
     material_tags matDiff @
     threat_tags san evalBefore evalAfter @
     fork_tags engineBestSan scoreBefore scoreAfter @
     positional_tags sqs m san phase playedMove @
     trade_tags matDiff san isWhiteMove scoreBefore"

text \<open>The tag pushed inside \<open>else if (playedMove.piece === 'p')\<close>.\<close>

definition kick_tags :: "fen_api \<Rightarrow> string \<Rightarrow> square_rec \<Rightarrow> eval \<Rightarrow> string list" where
  "kick_tags F fenAfter playedMove evalAfter =
     (case next_best evalAfter of
        None \<Rightarrow> []
      | Some nextBest \<Rightarrow>
          if nextBest \<noteq> [] \<and> length nextBest \<ge> 4 then
            (case get F fenAfter (substring nextBest 0 2) of
               None \<Rightarrow> []
             | Some pieceMoving \<Rightarrow>
                 if pc_type pieceMoving \<in> set ''nbrq'' \<and> pc_color pieceMoving \<noteq> sq_color playedMove
                 then [''kicks_piece''] else [])
          else [])"

text \<open>
  The body of the second loop of \<open>analyzeFullGame\<close>, for half-move \<open>m\<close>. Reading a
  property of an array element that does not exist throws a TypeError.
\<close>

definition classify_move ::
  "fen_api \<Rightarrow> opening_entry list \<Rightarrow> ('g, 'c) ChessLogic \<Rightarrow> 's scan \<Rightarrow> nat \<Rightarrow> error + classification" where
  "classify_move F table l sc m =
     (if \<not> (m + 1 < length (evals sc) \<and> m + 1 < length (fens l) \<and> m < length (squares l) \<and>
             m < length (sans l))
      then Inl TypeError
      else
        let evalBefore = evals sc ! m;
            evalAfter = evals sc ! (m + 1);
            engineBest = (if m < length (bestMoves sc) then bestMoves sc ! m else None);
            playedMove = squares l ! m;
            scoreBefore = mate_collapse evalBefore;
            scoreAfter = mate_collapse evalAfter;
            isWhiteMove = (sq_color playedMove = White);
            cpLoss = (if isWhiteMove then js_minus scoreBefore scoreAfter
                      else js_minus scoreAfter scoreBefore);
            cls = tier_cascade m cpLoss engineBest playedMove;
            phase = getGamePhase (fens l ! m) m;
            matBefore = getMaterialBalance (fens l ! m);
            matAfter = getMaterialBalance (fens l ! (m + 1));
            matDiff = (if isWhiteMove then matAfter - matBefore else - (matAfter - matBefore));
            engineBestSan = engine_best_san F (fens l ! m) engineBest;
            san = sans l ! m;
            tags = context_tags san @ missed_mate_tags isWhiteMove evalBefore evalAfter @
                   (if cpLoss > 1.2 then
                      bad_move_tags (squares l) m san phase playedMove evalBefore evalAfter
                        engineBestSan scoreBefore scoreAfter matDiff isWhiteMove
                    else if sq_piece playedMove = CHR ''p'' then
                      kick_tags F (fens l ! (m + 1)) playedMove evalAfter
                    else []);
            hungPiece = (if cpLoss > 1.2 then hung_piece F (fens l ! (m + 1)) playedMove evalAfter
                         else None);
            openingInfo = (if cls = Book then getOpening table (take (m + 1) (sans l)) else None)
        in Inr \<lparr>c_cls = cls, c_cpLoss = cpLoss, c_evalBefore = scoreBefore, c_evalAfter = scoreAfter,
                c_engineBest = engineBest, c_engineBestSan = engineBestSan,
                c_enginePv = pv evalBefore, c_from = sq_from playedMove, c_to = sq_to playedMove,
                c_piece = sq_piece playedMove, c_tags = tags, c_phase = phase,
                c_matBefore = matBefore, c_matAfter = matAfter, c_opening = openingInfo,
                c_hungPiece = hungPiece\<rparr>)"

text \<open>The loop stops at the first exception, which becomes the result.\<close>

fun collect :: "(error + 'a) list \<Rightarrow> error + 'a list" where
  "collect [] = Inr []"
| "collect (x # xs) =
     (case x of
        Inl e \<Rightarrow> Inl e
      | Inr v \<Rightarrow> (case collect xs of Inl e \<Rightarrow> Inl e | Inr vs \<Rightarrow> Inr (v # vs)))"

definition analyzeFullGame ::
  "fen_api \<Rightarrow> opening_entry list \<Rightarrow> ('s \<Rightarrow> string \<Rightarrow> nat \<Rightarrow> engine_result \<times> 's) \<Rightarrow> 's \<Rightarrow>
   ('g, 'c) ChessLogic \<Rightarrow> nat \<Rightarrow> bool \<Rightarrow> error + (classification list \<times> 's scan)" where
  "analyzeFullGame F table evalAsync s0 l targetDepth onProgress =
     (let numMoves = length (sans l);
          sc = eval_positions F evalAsync targetDepth onProgress (fens l) s0
      in case collect (map (classify_move F table l sc) [0..<numMoves]) of
           Inl e \<Rightarrow> Inl e
         | Inr cs \<Rightarrow> Inr (cs, sc))"

text \<open>
  What the caller stores in \<open>logic.classifications\<close> and reads at index \<open>m\<close>, when the
  analysis has returned.
\<close>

definition classification_at ::
  "nat \<Rightarrow> error + (classification list \<times> 's scan) \<Rightarrow> classification option" where
  "classification_at m r =
     (case r of
        Inl e \<Rightarrow> None
      | Inr (cs, sc) \<Rightarrow> if m < length cs then Some (cs ! m) else None)"

text \<open>
  The desirability order of the tiers, from the specification's glossary:
  Brilliant, Great, Best, Good, Book, Inaccuracy, Mistake, Blunder, best first.
\<close>

fun desirability :: "tier \<Rightarrow> nat" where
  "desirability Brilliant = 7"
| "desirability Great = 6"
| "desirability Best = 5"
| "desirability Good = 4"
| "desirability Book = 3"
| "desirability Inaccuracy = 2"
| "desirability Mistake = 1"
| "desirability Blunder = 0"

section \<open>Example inputs\<close>

text \<open>
  A stand-in for \<open>new Chess(fen)\<close> on the positions of the examples: the side to move
  is read from the FEN's second field, the only terminal position is the final position
  of the fool's mate, and no square or move is resolved.
\<close>

definition fools_fens :: "string list" where
  "fools_fens =
     [''rnbqkbnr/pppppppp/8/8/8/8/PPPPPPPP/RNBQKBNR w KQkq - 0 1'',
      ''rnbqkbnr/pppppppp/8/8/8/5P2/PPPPP1PP/RNBQKBNR b KQkq - 0 1'',
      ''rnbqkbnr/pppp1ppp/8/4p3/8/5P2/PPPPP1PP/RNBQKBNR w KQkq e6 0 2'',
      ''rnbqkbnr/pppp1ppp/8/4p3/6P1/5P2/PPPPP2P/RNBQKBNR b KQkq g3 0 2'',
      ''rnb1kbnr/pppp1ppp/8/4p3/6Pq/5P2/PPPPP2P/RNBQKBNR w KQkq - 1 3'']"

definition mate_fen :: string where
  "mate_fen = ''rnb1kbnr/pppp1ppp/8/4p3/6Pq/5P2/PPPPP2P/RNBQKBNR w KQkq - 1 3''"

definition stub_fen_api :: fen_api where
  "stub_fen_api =
     \<lparr>turn = (\<lambda>f. if take 1 (drop 1 (dropWhile (\<lambda>c. c \<noteq> CHR '' '') f)) = ''w'' then White else Black),
      game_over = (\<lambda>f. f = mate_fen),
      in_checkmate = (\<lambda>f. f = mate_fen),
      get = (\<lambda>f sq. None),
      move_san = (\<lambda>f a b p. None)\<rparr>"

text \<open>
  An engine that answers every request at the requested depth: for a position with White
  to move with score \<open>w\<close> and best move e2e4, otherwise with score \<open>b\<close> and best move
  e7e5 (scores from the side to move). Its state counts the requests.
\<close>

definition stub_engine :: "real \<Rightarrow> real \<Rightarrow> nat \<Rightarrow> string \<Rightarrow> nat \<Rightarrow> engine_result \<times> nat" where
  "stub_engine w b s f d =
     (if turn stub_fen_api f = White
      then \<lparr>res_depth = d, res_score = Some w, res_isMate = False,
             res_bestMove = Some ''e2e4'', res_pv = Some ''e2e4 e7e5''\<rparr>
      else \<lparr>res_depth = d, res_score = Some b, res_isMate = False,
             res_bestMove = Some ''e7e5'', res_pv = Some ''e7e5 g1f3''\<rparr>,
      Suc s)"

text \<open>The timeline of the game 1. e4, as \<open>loadPGN\<close> builds it.\<close>

definition e4_logic :: "(verbose_move list, classification) ChessLogic" where
  "e4_logic = snd (loadPGN stub_chess (ChessLogic_new stub_chess) ''1. e4'')"

text \<open>
  A stand-in for chess.js on one transcript. The game object is the number of moves
  played from the standard start position, with the history. \<open>load_pgn\<close> accepts the
  transcript \<open>pgn\<close> and yields its moves; \<open>move\<close> plays the next of these moves while
  it is legal from the standard start position, which it is as long as \<open>fs\<close> lists a
  position after it, and otherwise returns null and leaves the game as it is.
\<close>

definition replay_chess ::
  "string \<Rightarrow> verbose_move list \<Rightarrow> string list \<Rightarrow> (nat \<times> verbose_move list) chess_api" where
  "replay_chess pgn moves fs =
     \<lparr>new_Chess = (0, []),
      game_reset = (\<lambda>g. (0, [])),
      game_fen = (\<lambda>g. fs ! fst g),
      load_pgn = (\<lambda>g p. if p = pgn then (True, (0, moves)) else (False, (0, []))),
      history = snd,
      game_move = (\<lambda>g san. if Suc (fst g) < length fs \<and> fst g < length moves \<and>
                                  san = h_san (moves ! fst g)
                               then (Suc (fst g), snd g @ [moves ! fst g]) else g)\<rparr>"

text \<open>
  An engine that answers its \<open>n\<close>-th request with the \<open>n\<close>-th result of a list; its
  state counts the requests. \<open>cp_result\<close> is the result of a search whose last progress
  line was \<open>info depth d score cp n pv line\<close>.
\<close>

definition cp_result :: "nat \<Rightarrow> int \<Rightarrow> string \<Rightarrow> engine_result" where
  "cp_result d n line =
     \<lparr>res_depth = d, res_score = Some (js_div (parseInt n) 100), res_isMate = False,
      res_bestMove = Some (split_first line), res_pv = Some line\<rparr>"

definition scripted_engine :: "engine_result list \<Rightarrow> nat \<Rightarrow> string \<Rightarrow> nat \<Rightarrow> engine_result \<times> nat" where
  "scripted_engine rs s f d =
     (if s < length rs then rs ! s
      else \<lparr>res_depth = 0, res_score = Some 0, res_isMate = False, res_bestMove = None,
             res_pv = None\<rparr>,
      Suc s)"


text \<open>
  The position after 1. e4 e5 with Black's move, and the position after
  1. e4 e5 2. Qh5 g6 3. Qg5 Qxg5, in which White has lost the queen.
\<close>

definition e5_fen :: string where
  "e5_fen = ''rnbqkbnr/pppp1ppp/8/4p3/4P3/8/PPPP1PPP/RNBQKBNR w KQkq e6 0 2''"

definition e5_move :: verbose_move where
  "e5_move = \<lparr>h_san = ''e5'', h_from = ''e7'', h_to = ''e5'', h_color = Black, h_piece = CHR ''p''\<rparr>"

definition e7e5 :: square_rec where
  "e7e5 = \<lparr>sq_from = ''e7'', sq_to = ''e5'', sq_color = Black, sq_piece = CHR ''p''\<rparr>"

definition queen_down_fen :: string where
  "queen_down_fen = ''rnb1kbnr/pppp1p1p/6p1/4p1q1/4P3/8/PPPP1PPP/RNB1KBNR w KQkq - 0 4''"

text \<open>
  A stand-in for \<open>new Chess(fen)\<close> that, beyond \<open>stub_fen_api\<close>, answers what the analyses
  below ask of it as chess.js does: the pawn on d2 after 1. e4 e5, and the SAN of 1. d4
  at the start, of 1... c5 after 1. e4, and of d4 in \<open>queen_down_fen\<close>. The other squares
  they look at (c5 after 1. e4, d4 in \<open>queen_down_fen\<close>) are empty.
\<close>

definition example_fen_api :: fen_api where
  "example_fen_api =
     stub_fen_api
       \<lparr>get := (\<lambda>f sq. if f = e5_fen \<and> sq = ''d2''
                       then Some \<lparr>pc_type = CHR ''p'', pc_color = White\<rparr> else None),
        move_san := (\<lambda>f a b p.
          if (f = start_fen \<or> f = queen_down_fen) \<and> a = ''d2'' \<and> b = ''d4'' \<and> p = None
          then Some ''d4''
          else if f = e4_fen \<and> a = ''c7'' \<and> b = ''c5'' \<and> p = None then Some ''c5''
          else None)\<rparr>"












text \<open>
  A game that starts from a position given in the transcript's header, the standard
  start position with White's king's bishop on c4. \<open>load_pgn\<close> sets that position up and
  accepts the moves; \<open>loadPGN\<close> then replays them on the reset game, from the standard
  start position, in which the first six are legal and 4. Bxf7+ is not.
\<close>

definition setup_pgn :: string where
  \<open>setup_pgn =
     ''[SetUp "1"]'' @ [CHR 0x0A] @
     ''[FEN "rnbqkbnr/pppppppp/8/8/2B5/8/PPPPPPPP/RNBQK1NR w KQkq - 0 1"]'' @ [CHR 0x0A, CHR 0x0A] @
     ''1. e4 e5 2. Qh5 g6 3. Qg5 Qxg5 4. Bxf7+''\<close>

definition setup_moves :: "verbose_move list" where
  "setup_moves =
     [e4_move, e5_move,
      \<lparr>h_san = ''Qh5'', h_from = ''d1'', h_to = ''h5'', h_color = White, h_piece = CHR ''q''\<rparr>,
      \<lparr>h_san = ''g6'', h_from = ''g7'', h_to = ''g6'', h_color = Black, h_piece = CHR ''p''\<rparr>,
      \<lparr>h_san = ''Qg5'', h_from = ''h5'', h_to = ''g5'', h_color = White, h_piece = CHR ''q''\<rparr>,
      \<lparr>h_san = ''Qxg5'', h_from = ''d8'', h_to = ''g5'', h_color = Black, h_piece = CHR ''q''\<rparr>,
      \<lparr>h_san = ''Bxf7+'', h_from = ''c4'', h_to = ''f7'', h_color = White, h_piece = CHR ''b''\<rparr>]"

definition setup_fens :: "string list" where
  "setup_fens =
     [start_fen, e4_fen, e5_fen,
      ''rnbqkbnr/pppp1ppp/8/4p2Q/4P3/8/PPPP1PPP/RNB1KBNR b KQkq - 1 2'',
      ''rnbqkbnr/pppp1p1p/6p1/4p2Q/4P3/8/PPPP1PPP/RNB1KBNR w KQkq - 0 3'',
      ''rnbqkbnr/pppp1p1p/6p1/4p1Q1/4P3/8/PPPP1PPP/RNB1KBNR b KQkq - 1 3'',
      queen_down_fen]"

definition setup_chess :: "(nat \<times> verbose_move list) chess_api" where
  "setup_chess = replay_chess setup_pgn setup_moves setup_fens"

definition setup_logic :: "(nat \<times> verbose_move list, classification) ChessLogic" where
  "setup_logic = snd (loadPGN setup_chess (ChessLogic_new setup_chess) setup_pgn)"

text \<open>
  An analysis of this timeline in which the engine, asked twice for the position after
  3... Qxg5, reports -875 and then -1025 centipawns for White.
\<close>

definition setup_engine :: "nat \<Rightarrow> string \<Rightarrow> nat \<Rightarrow> engine_result \<times> nat" where
  "setup_engine =
     scripted_engine
       [cp_result 12 25 ''e2e4 e7e5'', cp_result 12 (- 25) ''e7e5 g1f3'',
        cp_result 12 25 ''g1f3 b8c6'', cp_result 12 50 ''b8c6 g1f3'',
        cp_result 12 450 ''h5e5 d8e7'', cp_result 12 900 ''d8g5 d2d4'',
        cp_result 12 (- 875) ''d2d4 g5g2'', cp_result 12 (- 1025) ''d2d4 g5g2'']"

definition setup_scan :: "nat scan" where
  "setup_scan = eval_positions example_fen_api setup_engine 12 True (fens setup_logic) 0"

definition trade_class :: classification where
  "trade_class =
     \<lparr>c_cls = Inaccuracy, c_cpLoss = 1.5, c_evalBefore = - 8.75, c_evalAfter = - 10.25,
      c_engineBest = Some ''d2d4'', c_engineBestSan = Some ''d4'',
      c_enginePv = Some ''d2d4 g5g2'', c_from = ''c4'', c_to = ''f7'', c_piece = CHR ''b'',
      c_tags = [''is_check'', ''is_capture'', ''allowed_trade''], c_phase = Opening,
      c_matBefore = - 9, c_matAfter = - 9, c_opening = None, c_hungPiece = None\<rparr>"

definition e2e4 :: square_rec where
  "e2e4 = \<lparr>sq_from = ''e2'', sq_to = ''e4'', sq_color = White, sq_piece = CHR ''p''\<rparr>"

text \<open>The scan of the game 1. e4 by the stand-in engine.\<close>

definition e4_scan :: "real \<Rightarrow> real \<Rightarrow> nat scan" where
  "e4_scan w b = eval_positions stub_fen_api (stub_engine w b) 12 True (fens e4_logic) 0"

text \<open>
  The classification of the half-move 1. e4 with tier \<open>t\<close> when the evaluation is \<open>w\<close>
  before and \<open>a\<close> after the move.
\<close>

definition e4_class :: "tier \<Rightarrow> real \<Rightarrow> real \<Rightarrow> classification" where
  "e4_class t w a =
     \<lparr>c_cls = t, c_cpLoss = js_minus w a, c_evalBefore = w, c_evalAfter = a,
      c_engineBest = Some ''e2e4'', c_engineBestSan = Some ''e2e4'',
      c_enginePv = Some ''e2e4 e7e5'', c_from = ''e2'', c_to = ''e4'', c_piece = CHR ''p'',
      c_tags = [], c_phase = Opening, c_matBefore = 0, c_matAfter = 0, c_opening = None,
      c_hungPiece = None\<rparr>"


section \<open>Engine\<close>

text \<open>
  The session is event driven and single threaded: every call of a method and every
  callback (a line from the worker, a timer, an interval) runs to completion on the
  state of the \<open>Engine\<close> object. The model is a function from an event and a state to the
  next state. Besides the fields of the object the state holds what the environment
  keeps: the lines posted to the worker, the console, the live updates delivered, the
  pending timers and intervals, and the promises resolved so far.

  A line from the worker is represented by the outcome of the tests and regular
  expression matches that \<open>_onMessage\<close> makes on it.
\<close>

record info_match =
  depthMatch :: "nat option"
  cpMatch :: "int option"
  mateMatch :: "int option"
  pvMatch :: "string option"

datatype line =
    NonString
  | Uciok
  | Readyok
  | Info info_match
  | Bestmove "string option"
  | OtherLine

text \<open>The argument of the live callback \<open>onUpdate\<close>.\<close>

record live_update =
  u_depth :: nat
  u_score :: real
  u_isMate :: bool
  u_bestMove :: string
  u_pv :: string

text \<open>A pending interval callback, of \<open>evaluate\<close> or of \<open>evalAsync\<close> (with its promise).\<close>

datatype poller = PollEvaluate string nat | PollAsync nat string nat

text \<open>
  What resolved a promise: the \<open>n\<close>-th \<open>bestmove\<close> line received, or the timer with a
  given handle. A UCI engine answers every \<open>go\<close> with one \<open>bestmove\<close> line, in order, so
  the \<open>n\<close>-th line received is the terminating signal of the \<open>n\<close>-th search started.
\<close>

datatype cause = BestmoveOf nat | TimerOf nat

text \<open>
  One call of a promise's \<open>resolve\<close>: the promise, the search and the timer that its own
  request started, what triggered the call, and the value passed.
\<close>

record resolution =
  r_promise :: nat
  r_own_search :: nat
  r_own_timer :: nat
  r_cause :: cause
  r_value :: engine_result

record engine =
  onUpdate :: bool
  ready :: bool
  worker :: bool
  currentBestMove :: "string option"
  currentPv :: "string option"
  currentScore :: "real option"
  currentDepth :: nat
  currentIsMate :: bool
  resolveEval :: "nat option"
  isAsyncSearch :: bool
  evalTimeout :: "nat option"
  targetDepth_field :: nat
  posted :: "string list"
  console :: "string list"
  updates :: "live_update list"
  init_timer :: bool
  timers :: "nat list"
  pollers :: "poller list"
  promises :: nat
  handles :: nat
  thrown :: bool
  go_count :: nat
  bestmove_count :: nat
  own_search :: nat
  own_timer :: nat
  resolved :: "resolution list"

text \<open>Decimal notation of a number, as string concatenation produces it.\<close>

fun show_nat :: "nat \<Rightarrow> string" where
  "show_nat n =
     (if n < 10 then [''0123456789'' ! n]
      else show_nat (n div 10) @ [''0123456789'' ! (n mod 10)])"

text \<open>
  \<open>this.worker.postMessage(msg)\<close>. Without a worker the call throws a TypeError; the
  statements that follow a post in the code are posts to the same worker or come after
  a check of it.
\<close>

definition post :: "string \<Rightarrow> engine \<Rightarrow> engine" where
  "post msg e = (if worker e then e\<lparr>posted := posted e @ [msg]\<rparr> else e\<lparr>thrown := True\<rparr>)"

text \<open>
  The constructor with \<open>_init\<close>; \<open>spawn_ok\<close> tells whether \<open>new Worker(...)\<close> returns
  or throws.
\<close>

definition Engine_new :: "bool \<Rightarrow> bool \<Rightarrow> engine" where
  "Engine_new has_onUpdate spawn_ok =
     (let e = \<lparr>onUpdate = has_onUpdate, ready = False, worker = False, currentBestMove = None,
                currentPv = None, currentScore = None, currentDepth = 0, currentIsMate = False,
                resolveEval = None, isAsyncSearch = False, evalTimeout = None,
                targetDepth_field = 14, posted = [], console = [], updates = [],
                init_timer = False, timers = [], pollers = [], promises = 0, handles = 0,
                thrown = False, go_count = 0, bestmove_count = 0, own_search = 0, own_timer = 0,
                resolved = []\<rparr>
      in if spawn_ok then e\<lparr>worker := True, init_timer := True\<rparr>
         else e\<lparr>console := [''Could not create Stockfish worker:'']\<rparr>)"

text \<open>The value passed to \<open>resolve\<close>, read from the current fields.\<close>

definition snapshot_result :: "engine \<Rightarrow> engine_result" where
  "snapshot_result e =
     \<lparr>res_depth = currentDepth e, res_score = currentScore e, res_isMate = currentIsMate e,
      res_bestMove = currentBestMove e, res_pv = currentPv e\<rparr>"

text \<open>The placeholder shown for a missing best move, the character U+2014 (in UTF-8).\<close>

definition no_move :: string where
  "no_move = [CHR 0xE2, CHR 0x80, CHR 0x94]"

text \<open>The \<open>info\<close> branch of \<open>_onMessage\<close>.\<close>

definition on_info :: "info_match \<Rightarrow> engine \<Rightarrow> engine" where
  "on_info im e =
     (case depthMatch im of
        None \<Rightarrow> e
      | Some depth \<Rightarrow>
          (case (case cpMatch im of
                   Some cp \<Rightarrow> Some (js_div (parseInt cp) 100, False)
                 | None \<Rightarrow> (case mateMatch im of
                              Some mt \<Rightarrow> Some (parseInt mt, True)
                            | None \<Rightarrow> None)) of
             None \<Rightarrow> e
           | Some (sc, mate) \<Rightarrow>
               let pv = pvMatch im;
                   bestMove = (if truthy pv then Some (split_first (case pv of Some p \<Rightarrow> p | None \<Rightarrow> []))
                               else None);
                   e1 = e\<lparr>currentDepth := depth, currentScore := Some sc, currentIsMate := mate\<rparr>;
                   e2 = (if truthy bestMove then e1\<lparr>currentBestMove := bestMove\<rparr> else e1);
                   e3 = (if truthy pv then e2\<lparr>currentPv := pv\<rparr> else e2)
               in if onUpdate e3
                  then e3\<lparr>updates := updates e3 @
                          [\<lparr>u_depth = depth, u_score = sc, u_isMate = mate,
                            u_bestMove = (case bestMove of Some b \<Rightarrow> if b = [] then no_move else b
                                          | None \<Rightarrow> no_move),
                            u_pv = (case pv of Some p \<Rightarrow> p | None \<Rightarrow> [])\<rparr>]\<rparr>
                  else e3))"

text \<open>The \<open>bestmove\<close> branch of \<open>_onMessage\<close>; \<open>bm\<close> is \<open>line.split(' ')[1]\<close>.\<close>

definition on_bestmove :: "string option \<Rightarrow> engine \<Rightarrow> engine" where
  "on_bestmove bm e =
     (let e0 = e\<lparr>bestmove_count := bestmove_count e + 1\<rparr>;
          e1 = (if truthy bm \<and> bm \<noteq> Some ''(none)'' then e0\<lparr>currentBestMove := bm\<rparr> else e0)
      in case resolveEval e1 of
           None \<Rightarrow> e1
         | Some p \<Rightarrow>
             if isAsyncSearch e1 then
               let e2 = e1\<lparr>resolveEval := None, isAsyncSearch := False\<rparr>;
                   e3 = (case evalTimeout e2 of
                           None \<Rightarrow> e2
                         | Some h \<Rightarrow> e2\<lparr>timers := removeAll h (timers e2), evalTimeout := None\<rparr>)
               in e3\<lparr>resolved := resolved e3 @
                       [\<lparr>r_promise = p, r_own_search = own_search e3, r_own_timer = own_timer e3,
                         r_cause = BestmoveOf (bestmove_count e3), r_value = snapshot_result e3\<rparr>]\<rparr>
             else e1)"

definition onMessage :: "line \<Rightarrow> engine \<Rightarrow> engine" where
  "onMessage msg e =
     (case msg of
        NonString \<Rightarrow> e
      | Uciok \<Rightarrow> post ''isready'' e
      | Readyok \<Rightarrow> e\<lparr>ready := True, console := console e @ [''Stockfish engine ready.'']\<rparr>
      | Info im \<Rightarrow> on_info im e
      | Bestmove bm \<Rightarrow> on_bestmove bm e
      | OtherLine \<Rightarrow> e)"

definition doEval :: "string \<Rightarrow> nat \<Rightarrow> engine \<Rightarrow> engine" where
  "doEval f depth e =
     (let e1 = post ''stop'' e;
          e2 = post (''position fen '' @ f) e1;
          e3 = post (''go depth '' @ show_nat depth) e2
      in if worker e then e3\<lparr>go_count := go_count e3 + 1\<rparr> else e3)"

definition evaluate :: "string \<Rightarrow> nat \<Rightarrow> engine \<Rightarrow> engine" where
  "evaluate f depth e =
     (if \<not> worker e then e
      else if \<not> ready e then e\<lparr>pollers := pollers e @ [PollEvaluate f depth]\<rparr>
      else doEval f depth e)"

text \<open>The closure \<open>waitReady\<close> of \<open>evalAsync\<close>, for the promise \<open>p\<close>.\<close>

definition waitReady :: "nat \<Rightarrow> string \<Rightarrow> nat \<Rightarrow> engine \<Rightarrow> engine" where
  "waitReady p f depth e =
     (let h = handles e + 1;
          e1 = e\<lparr>isAsyncSearch := True, resolveEval := Some p, currentBestMove := None,
                 currentScore := Some 0, currentIsMate := False, currentDepth := 0,
                 evalTimeout := Some h, timers := timers e @ [h], handles := h,
                 own_timer := h, own_search := go_count e + 1\<rparr>;
          e2 = post ''stop'' e1;
          e3 = post (''position fen '' @ f) e2;
          e4 = post (''go depth '' @ show_nat depth) e3
      in if worker e then e4\<lparr>go_count := go_count e4 + 1\<rparr> else e4)"

text \<open>\<open>evalAsync\<close> creates the promise numbered \<open>promises e\<close>.\<close>

definition evalAsync_call :: "string \<Rightarrow> nat \<Rightarrow> engine \<Rightarrow> engine" where
  "evalAsync_call f depth e =
     (let p = promises e;
          e1 = e\<lparr>promises := p + 1\<rparr>
      in if \<not> ready e1 then e1\<lparr>pollers := pollers e1 @ [PollAsync p f depth]\<rparr>
         else waitReady p f depth e1)"

text \<open>The safety timer of \<open>evalAsync\<close> with handle \<open>h\<close> fires.\<close>

definition on_timeout :: "nat \<Rightarrow> engine \<Rightarrow> engine" where
  "on_timeout h e =
     (if h \<notin> set (timers e) then e
      else
        let e0 = e\<lparr>timers := removeAll h (timers e)\<rparr>
        in case resolveEval e0 of
             None \<Rightarrow> e0
           | Some r \<Rightarrow>
               let e1 = e0\<lparr>resolveEval := None, isAsyncSearch := False\<rparr>;
                   e2 = post ''stop'' e1
               in if worker e1
                  then e2\<lparr>resolved := resolved e2 @
                         [\<lparr>r_promise = r, r_own_search = own_search e2, r_own_timer = own_timer e2,
                           r_cause = TimerOf h, r_value = snapshot_result e2\<rparr>]\<rparr>
                  else e2)"

text \<open>An interval callback runs: once the session is ready it clears itself and acts.\<close>

definition on_tick :: "nat \<Rightarrow> engine \<Rightarrow> engine" where
  "on_tick k e =
     (if k < length (pollers e) \<and> ready e then
        let e1 = e\<lparr>pollers := take k (pollers e) @ drop (k + 1) (pollers e)\<rparr>
        in case pollers e ! k of
             PollEvaluate f depth \<Rightarrow> doEval f depth e1
           | PollAsync p f depth \<Rightarrow> waitReady p f depth e1
      else e)"

definition stop :: "engine \<Rightarrow> engine" where
  "stop e = (if worker e then post ''stop'' e else e)"

definition setOption :: "string \<Rightarrow> string \<Rightarrow> engine \<Rightarrow> engine" where
  "setOption name v e =
     (if worker e then post (''setoption name '' @ name @ '' value '' @ v) e else e)"

text \<open>
  The events of a session. The message listener and the start-up timer exist only on a
  worker that was created, so without one no line is delivered.
\<close>

datatype event =
    InitTimer
  | WorkerError
  | Line line
  | CallEvaluate string nat
  | CallEvalAsync string nat
  | CallStop
  | CallSetOption string string
  | Tick nat
  | Timeout nat

fun engine_step :: "event \<Rightarrow> engine \<Rightarrow> engine" where
  "engine_step InitTimer e =
     (if init_timer e then (if worker e then post ''uci'' (e\<lparr>init_timer := False\<rparr>)
                            else e\<lparr>init_timer := False\<rparr>)
      else e)"
| "engine_step WorkerError e =
     (if worker e then e\<lparr>console := console e @ [''Stockfish worker error:'']\<rparr> else e)"
| "engine_step (Line msg) e = (if worker e then onMessage msg e else e)"
| "engine_step (CallEvaluate f depth) e = evaluate f depth e"
| "engine_step (CallEvalAsync f depth) e = evalAsync_call f depth e"
| "engine_step CallStop e = stop e"
| "engine_step (CallSetOption name v) e = setOption name v e"
| "engine_step (Tick k) e = on_tick k e"
| "engine_step (Timeout h) e = on_timeout h e"

definition engine_run :: "event list \<Rightarrow> engine \<Rightarrow> engine" where
  "engine_run evs e = fold engine_step evs e"

text \<open>
  A session in which a live evaluation of the start position is running (one progress
  line has arrived) when an awaited evaluation of the position after 1. e4 is requested;
  the next line from the worker is the \<open>bestmove\<close> that ends the interrupted live search.
\<close>

definition race_events :: "event list" where
  "race_events =
     [InitTimer, Line Uciok, Line Readyok,
      CallEvaluate start_fen 14,
      Line (Info \<lparr>depthMatch = Some 10, cpMatch = Some 35, mateMatch = None,
                  pvMatch = Some ''e2e4 e7e5''\<rparr>),
      CallEvalAsync e4_fen 12,
      Line (Bestmove (Some ''e2e4''))]"

text \<open>A session without a worker does nothing that its environment can see.\<close>

definition silent :: "engine \<Rightarrow> bool" where
  "silent e = (\<not> worker e \<and> \<not> ready e \<and> \<not> thrown e \<and> posted e = [] \<and> resolved e = [] \<and>
               resolveEval e = None \<and> timers e = [] \<and> updates e = [])"

text \<open>
  The promises of a session: those still waiting in an interval, the one whose resolve
  function the session holds, and those resolved. Every promise is in at most one of
  these places, once, and was created by the session.
\<close>

fun poller_promise :: "poller \<Rightarrow> nat list" where
  "poller_promise (PollEvaluate f d) = []"
| "poller_promise (PollAsync p f d) = [p]"

definition waiting :: "engine \<Rightarrow> nat list" where
  "waiting e = concat (map poller_promise (pollers e))"

definition held :: "engine \<Rightarrow> nat list" where
  "held e = (case resolveEval e of None \<Rightarrow> [] | Some p \<Rightarrow> [p])"

definition settled :: "engine \<Rightarrow> nat list" where
  "settled e = map r_promise (resolved e)"

definition promises_ok :: "engine \<Rightarrow> bool" where
  "promises_ok e =
     (distinct (held e @ waiting e @ settled e) \<and>
      list_all (\<lambda>p. p < promises e) (held e @ waiting e @ settled e))"

section \<open>Properties of the numbers\<close>

text \<open>
  The rounding is odd, keeps zero, and is determined by the binade of its argument.
\<close>

lemma double_minus: "double (- x) = - double x"
  by (simp add: double_def ulp_def expo_def)

lemma double_zero: "double 0 = 0"
  by (simp add: double_def)

lemma expo_eq:
  assumes "2 powi e \<le> \<bar>x\<bar>" and "\<bar>x\<bar> < 2 powi (e + 1)" and "- 1022 \<le> e"
  shows "expo x = e"
proof -
  have pos: "0 < \<bar>x\<bar>" using assms(1) by (smt (verit) zero_less_power_int)
  have a: "of_int e \<le> log 2 \<bar>x\<bar>"
    using assms(1) pos by (simp add: le_log_iff powr_real_of_int')
  have "(2::real) powr of_int (e + 1) = 2 powi (e + 1)"
    by (rule powr_real_of_int') simp_all
  then have b: "log 2 \<bar>x\<bar> < of_int (e + 1)"
    using assms(2) pos by (simp add: log_less_iff del: of_int_add)
  have "\<lfloor>log 2 \<bar>x\<bar>\<rfloor> = e"
    using a b by (simp add: floor_eq_iff)
  then show ?thesis using assms(3) by (simp add: expo_def)
qed


lemma ulp_pos: "0 < ulp x"
  by (simp add: ulp_def)

lemma double_eval:
  assumes "2 powi e \<le> \<bar>x\<bar>" and "\<bar>x\<bar> < 2 powi (e + 1)" and "- 1022 \<le> e"
  shows "double x = sgn x * (of_int (round_even (\<bar>x\<bar> * 2 powi (52 - e))) * 2 powi (e - 52))"
proof -
  have "\<bar>x\<bar> / 2 powi (e - 52) = \<bar>x\<bar> * 2 powi (52 - e)"
    by (simp add: power_int_diff field_simps)
  then show ?thesis
    by (simp add: double_def ulp_def expo_eq [OF assms])
qed

lemma round_even_int: "round_even (of_int n) = n"
  by (simp add: round_even_def)

lemma round_even_nonneg: "0 \<le> q \<Longrightarrow> 0 \<le> round_even q"
  by (auto simp: round_even_def Let_def)

lemma round_even_ge: "of_int n \<le> q \<Longrightarrow> n \<le> round_even q"
proof -
  assume "of_int n \<le> q"
  then have "n \<le> \<lfloor>q\<rfloor>" by (simp add: le_floor_iff)
  then show ?thesis by (auto simp: round_even_def Let_def)
qed

lemma round_even_le: "q \<le> of_int n \<Longrightarrow> round_even q \<le> n"
proof -
  assume a: "q \<le> of_int n"
  have f: "\<lfloor>q\<rfloor> \<le> n" using floor_mono [OF a] by simp
  show ?thesis
  proof (cases "\<lfloor>q\<rfloor> = n")
    case True
    then have "q = of_int n" using a by (metis of_int_floor_le order_antisym)
    then show ?thesis by (simp add: round_even_int)
  next
    case False
    then have "\<lfloor>q\<rfloor> + 1 \<le> n" using f by simp
    then show ?thesis by (auto simp: round_even_def Let_def)
  qed
qed


lemma double_nonneg: "0 \<le> x \<Longrightarrow> 0 \<le> double x"
  using ulp_pos [of x]
  by (simp add: double_def sgn_if round_even_nonneg less_imp_le)

lemma expo_bounds:
  assumes "x \<noteq> 0"
  shows "\<bar>x\<bar> < 2 powi (expo x + 1)"
    and "expo x \<noteq> - 1022 \<Longrightarrow> 2 powi expo x \<le> \<bar>x\<bar>"
proof -
  let ?l = "\<lfloor>log 2 \<bar>x\<bar>\<rfloor>"
  have pos: "0 < \<bar>x\<bar>" using assms by simp
  have p: "(2::real) powr of_int k = 2 powi k" for k
    by (rule powr_real_of_int') simp_all
  have "log 2 \<bar>x\<bar> < of_int (?l + 1)" by simp
  then have up: "\<bar>x\<bar> < 2 powi (?l + 1)"
    using pos p [of "?l + 1"] by (simp add: log_less_iff del: of_int_add)
  have "?l \<le> expo x" by (simp add: expo_def)
  then have "(2::real) powi (?l + 1) \<le> 2 powi (expo x + 1)"
    by (intro power_int_increasing) simp_all
  then show "\<bar>x\<bar> < 2 powi (expo x + 1)" using up by linarith
  assume "expo x \<noteq> - 1022"
  then have e: "expo x = ?l" by (simp add: expo_def max_def split: if_splits)
  have "2 powr of_int ?l \<le> \<bar>x\<bar>"
    using pos by (subst le_log_iff [symmetric]) simp_all
  then have "2 powi ?l \<le> \<bar>x\<bar>"
    by (simp only: p)
  then show "2 powi expo x \<le> \<bar>x\<bar>" by (simp add: e)
qed


text \<open>
  A value with a significand of at most 53 bits and an exponent in range is a binary64
  value: rounding leaves it as it is. So do the scores that are whole numbers of
  quarter pawns, and the integers that \<open>parseInt\<close> reads, up to \<open>2 ^ 53\<close>.
\<close>

lemma double_exact:
  assumes "x = of_int m * 2 powi k" and "\<bar>m\<bar> < 2 ^ 53" and "- 1074 \<le> k"
  shows "double x = x"
proof (cases "x = 0")
  case True
  then show ?thesis by (simp add: double_zero)
next
  case False
  define j where "j = k - (expo x - 52)"
  have "\<bar>x\<bar> < 2 powi (k + 53)"
  proof -
    have "\<bar>x\<bar> = of_int \<bar>m\<bar> * 2 powi k" by (simp add: assms(1) abs_mult)
    also have "\<dots> < 2 ^ 53 * 2 powi k"
      using assms(2) by (intro mult_strict_right_mono) (simp_all del: of_int_abs, linarith?)
    also have "\<dots> = 2 powi (k + 53)" by (simp add: power_int_add)
    finally show ?thesis .
  qed
  then have "log 2 \<bar>x\<bar> < of_int (k + 53)"
    using False powr_real_of_int' [of 2 "k + 53"] by (simp add: log_less_iff del: of_int_add)
  then have "\<lfloor>log 2 \<bar>x\<bar>\<rfloor> < k + 53" by (simp only: floor_less_iff)
  then have j: "0 \<le> j"
    using assms(3) by (simp add: j_def expo_def)
  have "\<bar>x\<bar> / ulp x = of_int \<bar>m\<bar> * 2 powi j"
    by (simp add: assms(1) abs_mult ulp_def j_def power_int_diff)
  also have "\<dots> = of_int (\<bar>m\<bar> * 2 ^ nat j)"
    using j by (simp add: power_int_def)
  finally have q: "\<bar>x\<bar> / ulp x = of_int (\<bar>m\<bar> * 2 ^ nat j)" .
  have "of_int (round_even (\<bar>x\<bar> / ulp x)) * ulp x = \<bar>x\<bar> / ulp x * ulp x"
    by (simp only: q round_even_int)
  also have "\<dots> = \<bar>x\<bar>" using ulp_pos [of x] by simp
  finally show ?thesis by (simp add: double_def mult_sgn_abs)
qed

lemma double_quarters: "double (of_int n / 4) = of_int n / 4" if "\<bar>n\<bar> < 2 ^ 53"
  using double_exact [of "of_int n / 4" n "- 2"] that by (simp add: power_int_minus)

lemma parseInt_exact: "\<bar>n\<bar> < 2 ^ 53 \<Longrightarrow> parseInt n = of_int n"
  using double_exact [of "of_int n" n 0] by (simp add: parseInt_def)

text \<open>The values of the literals 0.4 and 1.2.\<close>

lemma double_04: "double 0.4 = 7205759403792794 / 2 ^ 54"
  using double_eval [of "- 2" "0.4"] by (simp add: round_even_def Let_def)

lemma double_12: "double 1.2 = 5404319552844595 / 2 ^ 52"
  using double_eval [of 0 "1.2"] by (simp add: round_even_def Let_def)

text \<open>
  No binary64 value lies above the value of the literal 1.2 and at or below 1.2: a
  comparison of a binary64 value with the literal is the comparison with 1.2.
\<close>

lemma double_pos_bounds:
  assumes "0 < x"
  shows "double x = of_int (round_even (x / ulp x)) * ulp x"
    and "double x \<le> 2 powi (expo x + 1)"
    and "expo x \<noteq> - 1022 \<Longrightarrow> 2 powi expo x \<le> double x"
proof -
  show d: "double x = of_int (round_even (x / ulp x)) * ulp x"
    using assms by (simp add: double_def)
  have u: "ulp x * 2 ^ 53 = 2 powi (expo x + 1)" "ulp x * 2 ^ 52 = 2 powi expo x"
    by (simp_all add: ulp_def power_int_diff power_int_add)
  have "x / ulp x \<le> of_int (2 ^ 53)"
    using expo_bounds(1) [of x] assms ulp_pos [of x] u(1) by (simp add: field_simps)
  then have "round_even (x / ulp x) \<le> 2 ^ 53" by (rule round_even_le)
  then have "real_of_int (round_even (x / ulp x)) \<le> 2 ^ 53"
    by (metis of_int_le_iff of_int_numeral of_int_power)
  then have "real_of_int (round_even (x / ulp x)) * ulp x \<le> 2 ^ 53 * ulp x"
    using ulp_pos [of x] by (intro mult_right_mono) simp_all
  then show "double x \<le> 2 powi (expo x + 1)"
    using u(1) by (simp add: d mult.commute)
  assume n: "expo x \<noteq> - 1022"
  have "of_int (2 ^ 52) \<le> x / ulp x"
    using expo_bounds(2) [of x] n assms ulp_pos [of x] u(2) by (simp add: field_simps)
  then have "2 ^ 52 \<le> round_even (x / ulp x)" by (rule round_even_ge)
  then have "2 ^ 52 \<le> real_of_int (round_even (x / ulp x))"
    by (metis of_int_le_iff of_int_numeral of_int_power)
  then have "2 ^ 52 * ulp x \<le> real_of_int (round_even (x / ulp x)) * ulp x"
    using ulp_pos [of x] by (intro mult_right_mono) simp_all
  then show "2 powi expo x \<le> double x"
    using u(2) by (simp add: d mult.commute)
qed

lemma double_nonpos: "x \<le> 0 \<Longrightarrow> double x \<le> 0"
  using double_nonneg [of "- x"] by (simp add: double_minus)

lemma double_above_12:
  assumes "double 1.2 < double z"
  shows "1.2 < double z"
proof -
  have lt: "5404319552844595 / 2 ^ 52 < double z"
    using assms unfolding double_12 .
  have z: "0 < z"
    using lt double_nonpos [of z] by (cases "0 < z") simp_all
  note b = double_pos_bounds [OF z]
  consider "expo z \<le> - 1" | "expo z = 0" | "1 \<le> expo z" by linarith
  then show ?thesis
  proof cases
    case 1
    then have "(2::real) powi (expo z + 1) \<le> 2 powi 0"
      by (intro power_int_increasing) simp_all
    then have "double z \<le> 1" using b(2) by simp
    then show ?thesis using lt by simp
  next
    case 2
    define n where "n = round_even (z / ulp z)"
    have d: "double z = of_int n / 2 ^ 52"
      using b(1) 2 by (simp add: n_def ulp_def power_int_minus field_simps)
    have "real_of_int 5404319552844595 < of_int n"
      using lt by (simp add: d)
    then have "5404319552844595 < n" by (simp only: of_int_less_iff)
    then have "5404319552844596 \<le> n" by simp
    then have "real_of_int 5404319552844596 \<le> of_int n" by (simp only: of_int_le_iff)
    then show ?thesis by (simp add: d)
  next
    case 3
    then have "(2::real) powi 1 \<le> 2 powi expo z"
      by (intro power_int_increasing) simp_all
    moreover have "expo z \<noteq> - 1022" using 3 by simp
    ultimately have "2 \<le> double z" using b(3) by simp
    then show ?thesis by simp
  qed
qed

lemma compare_12: "(double z \<le> 1.2) = (double z \<le> double 1.2)"
proof -
  have "double 1.2 < (1.2::real)" unfolding double_12 by simp
  then show ?thesis using double_above_12 [of z] by linarith
qed

lemma double_04_less: "2 / 5 < double (2 / 5)" "double (2 / 5) < 1 / 2"
  using double_04 by simp_all





text \<open>The scores and losses of the examples.\<close>

lemma cp_negative: "js_div (parseInt (- n)) 100 = - js_div (parseInt n) 100"
  by (simp add: js_div_def parseInt_def double_minus)



lemma quarter_scores:
  "js_div (parseInt 875) 100 = 35 / 4" "js_div (parseInt 1025) 100 = 41 / 4"
  "js_minus (- (35 / 4)) (- (41 / 4)) = 3 / 2"
  using double_quarters [of 35] double_quarters [of 41] double_quarters [of 6]
  by (simp_all add: js_div_def js_minus_def parseInt_exact)

lemma e4_losses: "js_minus (1 / 4) (- (1 / 2)) = 3 / 4" "js_minus x x = 0"
  using double_quarters [of 3] by (simp_all add: js_minus_def double_zero)

section \<open>Properties of ChessLogic\<close>

lemma cursor_ok_new: "cursor_ok (ChessLogic_new R)"
  by (simp add: cursor_ok_def ChessLogic_new_def snapshot_def)

lemma cursor_ok_reset: "cursor_ok (reset R l)"
  by (simp add: cursor_ok_def reset_def snapshot_def)

lemma fens_fold_replay: "fens l \<noteq> [] \<Longrightarrow> fens (fold (replay_move R) ms l) \<noteq> []"
  by (induction ms arbitrary: l) (simp_all add: replay_move_def snapshot_def)

lemma fens_reset: "fens (reset R l) = [game_fen R (game_reset R (game l))]"
  by (simp add: reset_def snapshot_def)

lemma cursor_ok_loadPGN: "cursor_ok (snd (loadPGN R l pgn))"
proof -
  have ne: "fens (fold (replay_move R) ms (reset R l')) \<noteq> []" for ms and l' :: "('a, 'b) ChessLogic"
    by (rule fens_fold_replay) (simp add: fens_reset)
  show ?thesis
    using ne cursor_ok_reset [of R l]
    by (auto simp: loadPGN_def Let_def cursor_ok_def split: prod.splits)
qed

lemma cursor_ok_step: "cursor_ok l \<Longrightarrow> cursor_ok (apply_logic_op R op l)"
proof (cases op)
  case Reset
  then show ?thesis by (simp add: cursor_ok_reset)
next
  case (LoadPGN pgn)
  then show ?thesis by (simp add: cursor_ok_loadPGN)
qed (auto simp: cursor_ok_def goStart_def goEnd_def goNext_def goPrev_def goTo_def)

lemma cursor_ok_fold: "cursor_ok l \<Longrightarrow> cursor_ok (fold (apply_logic_op R) ops l)"
  by (induction ops arbitrary: l) (simp_all add: cursor_ok_step)

text \<open>
  C9. After any sequence of the public operations reset, loadPGN, goStart, goEnd, goNext,
  goPrev and goTo (with any integer argument), run on a freshly constructed instance, the
  position list is non-empty and the cursor lies in the range from 0 to the last index.
\<close>

theorem cursor_in_range:
  "(let l = run_logic R ops (ChessLogic_new R)
    in fens l \<noteq> [] \<and> 0 \<le> idx l \<and> idx l \<le> int (length (fens l)) - 1)"
proof -
  have "cursor_ok (fold (apply_logic_op R) ops (ChessLogic_new R :: ('a, 'b) ChessLogic))"
    by (rule cursor_ok_fold) (rule cursor_ok_new)
  then show ?thesis
    by (simp add: cursor_ok_def run_logic_def)
qed

lemma e4_logic_eq:
  "e4_logic = \<lparr>game = [e4_move], fens = [start_fen, e4_fen], sans = [''e4''],
     squares = [e2e4], idx = 1, classifications = []\<rparr>"
  by (simp add: e4_logic_def loadPGN_def ChessLogic_new_def reset_def snapshot_def stub_chess_def
        Let_def replay_move_def e4_move_def e2e4_def)

text \<open>
  C7, as the claim states it, fails: a load that is given an unparsable transcript
  returns false, but the timeline of the game loaded before is gone. Here the game 1. e4
  is loaded (two positions, one move, cursor 1) and the transcript \<open>xyz\<close> is rejected.
\<close>

theorem loadPGN_not_atomic:
  "fst (loadPGN stub_chess e4_logic ''xyz'') = False \<and>
   fens e4_logic = [start_fen, e4_fen] \<and>
   fens (snd (loadPGN stub_chess e4_logic ''xyz'')) = [start_fen] \<and>
   sans e4_logic = [''e4''] \<and>
   sans (snd (loadPGN stub_chess e4_logic ''xyz'')) = [] \<and>
   idx e4_logic = 1 \<and>
   idx (snd (loadPGN stub_chess e4_logic ''xyz'')) = 0"
  by (simp add: e4_logic_eq loadPGN_def reset_def snapshot_def stub_chess_def Let_def)

text \<open>
  C7, amended. When the rules library rejects the transcript, \<open>loadPGN\<close> returns false
  and leaves the timeline of a fresh instance: the single position of the reset game, no
  moves, no move records, no classifications, and the cursor at 0.
\<close>

theorem loadPGN_failure_resets:
  assumes "\<not> fst (load_pgn R (game_reset R (game l)) pgn)"
  shows "fst (loadPGN R l pgn) = False \<and>
         fens (snd (loadPGN R l pgn)) = [game_fen R (game_reset R (game l))] \<and>
         sans (snd (loadPGN R l pgn)) = [] \<and>
         squares (snd (loadPGN R l pgn)) = [] \<and>
         classifications (snd (loadPGN R l pgn)) = [] \<and>
         idx (snd (loadPGN R l pgn)) = 0"
  using assms by (auto simp: loadPGN_def reset_def snapshot_def Let_def split: prod.splits)

theorem loadPGN_failure_resets_witness:
  "\<not> fst (load_pgn stub_chess (game_reset stub_chess (game e4_logic)) ''xyz'') \<and>
   fst (loadPGN stub_chess e4_logic ''xyz'') = False \<and>
   fens (snd (loadPGN stub_chess e4_logic ''xyz'')) = [start_fen]"
proof -
  have h: "\<not> fst (load_pgn stub_chess (game_reset stub_chess (game e4_logic)) ''xyz'')"
    by (simp add: stub_chess_def)
  show ?thesis
    using h loadPGN_failure_resets [OF h] by (simp add: stub_chess_def)
qed


lemma setup_loadPGN:
  "loadPGN setup_chess (ChessLogic_new setup_chess) setup_pgn =
     (True,
      \<lparr>game = (6, take 6 setup_moves),
       fens = setup_fens @ [queen_down_fen],
       sans = map h_san setup_moves,
       squares = map (\<lambda>m. \<lparr>sq_from = h_from m, sq_to = h_to m, sq_color = h_color m,
                              sq_piece = h_piece m\<rparr>) setup_moves,
       idx = 7, classifications = []\<rparr>)"
  by (simp add: setup_chess_def replay_chess_def loadPGN_def ChessLogic_new_def
        reset_def snapshot_def Let_def replay_move_def setup_moves_def setup_fens_def
        e4_move_def e5_move_def)

lemma setup_logic_eq:
  "setup_logic =
      \<lparr>game = (6, take 6 setup_moves),
       fens = setup_fens @ [queen_down_fen],
       sans = map h_san setup_moves,
       squares = map (\<lambda>m. \<lparr>sq_from = h_from m, sq_to = h_to m, sq_color = h_color m,
                              sq_piece = h_piece m\<rparr>) setup_moves,
       idx = 7, classifications = []\<rparr>"
  by (simp add: setup_logic_def setup_loadPGN)

lemma replay_shape:
  assumes "length (fens l) = Suc (length (sans l))" and "length (squares l) = length (sans l)"
  shows "length (fens (fold (replay_move R) ms l)) = Suc (length (sans (fold (replay_move R) ms l))) \<and>
         length (squares (fold (replay_move R) ms l)) = length (sans (fold (replay_move R) ms l))"
  using assms by (induction ms arbitrary: l) (simp_all add: replay_move_def snapshot_def)

lemma loadPGN_shape:
  "length (fens (snd (loadPGN R l pgn))) = Suc (length (sans (snd (loadPGN R l pgn)))) \<and>
   length (squares (snd (loadPGN R l pgn))) = length (sans (snd (loadPGN R l pgn)))"
proof -
  have r: "length (fens (reset R l')) = Suc (length (sans (reset R l'))) \<and>
           length (squares (reset R l')) = length (sans (reset R l'))" for l' :: "('a, 'b) ChessLogic"
    by (simp add: reset_def snapshot_def)
  have f: "length (fens (fold (replay_move R) ms (reset R l'))) =
             Suc (length (sans (fold (replay_move R) ms (reset R l')))) \<and>
           length (squares (fold (replay_move R) ms (reset R l'))) =
             length (sans (fold (replay_move R) ms (reset R l')))"
    for ms and l' :: "('a, 'b) ChessLogic"
    using r [of l'] by (intro replay_shape) simp_all
  show ?thesis
    using r [of l] f by (auto simp: loadPGN_def Let_def split: prod.splits)
qed

section \<open>Properties of the classifier\<close>

lemma tier_cascade_values:
  "tier_cascade 0 0.25 None pm = Book" "tier_cascade 0 0.75 None pm = Good"
  "tier_cascade 6 0.25 None pm = Best" "tier_cascade 6 0.75 None pm = Good"
  using double_04 by (simp_all add: tier_cascade_def BOOK_MOVES_def truthy_def)


text \<open>
  C5, as the claim states it, fails for the first six half-moves: at index 0, with no
  engine move recorded, a loss of 0.25 is tiered Book and the larger loss of 0.75 is
  tiered Good, which the order places above Book.
\<close>

theorem tier_not_monotone:
  "(0.25::real) < 0.75 \<and> tier_cascade 0 0.25 None e2e4 = Book \<and>
   tier_cascade 0 0.75 None e2e4 = Good \<and>
   \<not> desirability (tier_cascade 0 0.75 None e2e4) \<le> desirability (tier_cascade 0 0.25 None e2e4)"
  using tier_cascade_values [of e2e4] by simp

text \<open>
  C5, amended. For fixed half-move index, move record and engine-best move, and two
  losses \<open>x < y\<close>, the tier at \<open>x\<close> is at least as desirable as the tier at \<open>y\<close> exactly
  when the following does not hold: the index is below 6, \<open>x\<close> lies inside the book window
  (\<open>|x| < 0.5\<close>), \<open>y\<close> lies at or above 0.5, and \<open>y\<close> is tiered Good or Best (\<open>y \<le> 1.2\<close>, or
  the played move is the engine's). In particular the cascade is monotone from index 6 on.
\<close>

theorem tier_monotone:
  assumes "x < y"
  shows "(desirability (tier_cascade m y eb pm) \<le> desirability (tier_cascade m x eb pm)) =
         (\<not> (m < 6 \<and> \<bar>x\<bar> < 0.5 \<and> 0.5 \<le> y \<and>
              (y \<le> 1.2 \<or> (truthy eb \<and> Some (sq_from pm @ sq_to pm) = eb))))"
  using assms double_04_less by (auto simp: tier_cascade_def BOOK_MOVES_def)

theorem tier_monotone_witness:
  "(0.25::real) < 0.75 \<and>
   desirability (tier_cascade 6 0.75 None e2e4) \<le> desirability (tier_cascade 6 0.25 None e2e4)"
  using tier_monotone [of "0.25" "0.75" 6 None e2e4] by simp

section \<open>Properties of the position scan\<close>

lemma upt2: "[0..<2] = [0, Suc 0]"
  by (simp add: upt_rec numeral_2_eq_2)

lemma eval_position_terminal:
  assumes "game_over F (fs ! i)"
  shows "evals (eval_position F evalAsync d onP fs i st) =
           evals st @ [\<lparr>score = (if in_checkmate F (fs ! i)
                                  then (if turn F (fs ! i) = White then -100 else 100) else 0),
                         isMate = in_checkmate F (fs ! i), raw = Some 0, pv = None\<rparr>]"
    and "bestMoves (eval_position F evalAsync d onP fs i st) = bestMoves st @ [None]"
    and "requests (eval_position F evalAsync d onP fs i st) = requests st"
  using assms by (simp_all add: eval_position_def Let_def)

lemma eval_position_live:
  assumes "\<not> game_over F (fs ! i)"
  shows "length (evals (eval_position F evalAsync d onP fs i st)) = Suc (length (evals st))"
    and "length (bestMoves (eval_position F evalAsync d onP fs i st)) = Suc (length (bestMoves st))"
    and "take (length (evals st)) (evals (eval_position F evalAsync d onP fs i st)) = evals st"
    and "take (length (bestMoves st)) (bestMoves (eval_position F evalAsync d onP fs i st)) = bestMoves st"
    and "requests (eval_position F evalAsync d onP fs i st) = requests st @ [(fs ! i, d)]"
  using assms by (simp_all add: eval_position_def Let_def split: prod.splits)

lemma scan_prefix:
  fixes F evalAsync d onP fs s0
  defines "run \<equiv> \<lambda>n. fold (eval_position F evalAsync d onP fs) [0..<n]
                     \<lparr>evals = [], bestMoves = [], engine_state = s0, requests = [], progress = []\<rparr>"
  assumes "n \<le> length fs"
  shows "length (evals (run n)) = n \<and>
   length (bestMoves (run n)) = n \<and>
   (\<forall>i<n. game_over F (fs ! i) \<longrightarrow>
      evals (run n) ! i =
        \<lparr>score = (if in_checkmate F (fs ! i) then (if turn F (fs ! i) = White then -100 else 100) else 0),
         isMate = in_checkmate F (fs ! i), raw = Some 0, pv = None\<rparr> \<and>
      bestMoves (run n) ! i = None) \<and>
   requests (run n) = map (\<lambda>f. (f, d)) (filter (\<lambda>f. \<not> game_over F f) (take n fs))"
  using assms(2)
proof (induction n)
  case 0
  then show ?case by (simp add: run_def)
next
  case (Suc n)
  let ?st = "run n"
  let ?st' = "eval_position F evalAsync d onP fs n ?st"
  have eq: "run (Suc n) = ?st'" by (simp add: run_def)
  from Suc have n: "n < length fs" and IH: "length (evals ?st) = n" "length (bestMoves ?st) = n"
    "\<forall>i<n. game_over F (fs ! i) \<longrightarrow>
      evals ?st ! i =
        \<lparr>score = (if in_checkmate F (fs ! i) then (if turn F (fs ! i) = White then -100 else 100) else 0),
         isMate = in_checkmate F (fs ! i), raw = Some 0, pv = None\<rparr> \<and>
      bestMoves ?st ! i = None"
    "requests ?st = map (\<lambda>f. (f, d)) (filter (\<lambda>f. \<not> game_over F f) (take n fs))"
    by simp_all
  show ?case
  proof (cases "game_over F (fs ! n)")
    case True
    note t = eval_position_terminal [OF True]
    show ?thesis unfolding eq using IH n True
      by (auto simp: t nth_append take_Suc_conv_app_nth less_Suc_eq)
  next
    case False
    note v = eval_position_live [OF False]
    have pe: "evals ?st' ! i = evals ?st ! i" if "i < n" for i
      using that v(3) IH(1) by (metis nth_take)
    have pb: "bestMoves ?st' ! i = bestMoves ?st ! i" if "i < n" for i
      using that v(4) IH(2) by (metis nth_take)
    show ?thesis unfolding eq using IH n False
      by (auto simp: v(1,2,5) pe pb take_Suc_conv_app_nth less_Suc_eq)
  qed
qed

lemma scan_lengths:
  "length (evals (eval_positions F evalAsync d onP fs s0)) = length fs"
  "length (bestMoves (eval_positions F evalAsync d onP fs s0)) = length fs"
  using scan_prefix [of "length fs" fs F evalAsync d onP s0, folded eval_positions_def]
  by simp_all


text \<open>
  C3. For every position of the timeline that the rules library reports as terminal, the
  analyzer records a synthesized evaluation and no best move, and issues no request to
  the engine for it: on checkmate the mate flag is set and the White-perspective score is
  -100 when White is the side to move (the mated side) and +100 otherwise; on any other
  terminal position the score is 0 and the mate flag is clear. The requests issued are
  exactly the non-terminal positions, in order.
\<close>

theorem terminal_positions_synthesized:
  assumes "i < length fs" and "game_over F (fs ! i)"
  shows "evals (eval_positions F evalAsync d onP fs s0) ! i =
           \<lparr>score = (if in_checkmate F (fs ! i)
                     then (if turn F (fs ! i) = White then -100 else 100) else 0),
            isMate = in_checkmate F (fs ! i), raw = Some 0, pv = None\<rparr> \<and>
         bestMoves (eval_positions F evalAsync d onP fs s0) ! i = None \<and>
         requests (eval_positions F evalAsync d onP fs s0) =
           map (\<lambda>f. (f, d)) (filter (\<lambda>f. \<not> game_over F f) fs) \<and>
         (fs ! i, d) \<notin> set (requests (eval_positions F evalAsync d onP fs s0))"
proof -
  note p = scan_prefix [of "length fs" fs F evalAsync d onP s0, folded eval_positions_def]
  have r: "requests (eval_positions F evalAsync d onP fs s0) =
           map (\<lambda>f. (f, d)) (filter (\<lambda>f. \<not> game_over F f) fs)"
    using p by simp
  have "(fs ! i, d) \<notin> set (map (\<lambda>f. (f, d)) (filter (\<lambda>f. \<not> game_over F f) fs))"
    using assms(2) by auto
  then show ?thesis using p assms r by simp
qed

theorem terminal_positions_synthesized_witness:
  "4 < length fools_fens \<and> game_over stub_fen_api (fools_fens ! 4) \<and>
   in_checkmate stub_fen_api (fools_fens ! 4) \<and> turn stub_fen_api (fools_fens ! 4) = White \<and>
   evals (eval_positions stub_fen_api (stub_engine 0.25 (-0.25)) 12 True fools_fens 0) ! 4 =
     \<lparr>score = -100, isMate = True, raw = Some 0, pv = None\<rparr> \<and>
   bestMoves (eval_positions stub_fen_api (stub_engine 0.25 (-0.25)) 12 True fools_fens 0) ! 4 = None"
proof -
  have h1: "4 < length fools_fens" by (simp add: fools_fens_def)
  have h2: "game_over stub_fen_api (fools_fens ! 4)"
    by (simp add: fools_fens_def stub_fen_api_def mate_fen_def)
  have h3: "in_checkmate stub_fen_api (fools_fens ! 4)"
    by (simp add: fools_fens_def stub_fen_api_def mate_fen_def)
  have h4: "turn stub_fen_api (fools_fens ! 4) = White"
    by (simp add: fools_fens_def stub_fen_api_def)
  show ?thesis
    using h1 h2 h3 h4
      terminal_positions_synthesized [OF h1 h2, of "stub_engine 0.25 (-0.25)" 12 True 0]
    by simp
qed


lemma upt8: "[0..<8] = [0, 1, 2, 3, 4, 5, 6, 7]"
  by (simp add: upt_rec)

section \<open>Properties of the classification of a half-move\<close>

lemma e4_scan_eq:
  "e4_scan w b =
     \<lparr>evals = [\<lparr>score = w, isMate = False, raw = Some w, pv = Some ''e2e4 e7e5''\<rparr>,
               \<lparr>score = - b, isMate = False, raw = Some b, pv = Some ''e7e5 g1f3''\<rparr>],
      bestMoves = [Some ''e2e4'', Some ''e7e5''],
      engine_state = 2,
      requests = [(start_fen, 12), (e4_fen, 12)],
      progress = [(0, 2), (1, 2)]\<rparr>"
  by (simp add: e4_scan_def e4_logic_eq eval_positions_def upt2 eval_position_def Let_def
        stub_fen_api_def stub_engine_def start_fen_def e4_fen_def mate_fen_def report_def to_number_def)


lemma classify_move_fields:
  assumes "classify_move F table l sc m = Inr c"
  shows "c_evalBefore c = mate_collapse (evals sc ! m)"
    and "c_evalAfter c = mate_collapse (evals sc ! (m + 1))"
    and "c_cpLoss c = (if sq_color (squares l ! m) = White
                       then js_minus (c_evalBefore c) (c_evalAfter c)
                       else js_minus (c_evalAfter c) (c_evalBefore c))"
    and "c_engineBest c = (if m < length (bestMoves sc) then bestMoves sc ! m else None)"
    and "c_from c = sq_from (squares l ! m)"
    and "c_to c = sq_to (squares l ! m)"
    and "c_cls c = tier_cascade m (c_cpLoss c) (c_engineBest c) (squares l ! m)"
    and "c_matBefore c = getMaterialBalance (fens l ! m)"
    and "c_matAfter c = getMaterialBalance (fens l ! (m + 1))"
  using assms by (auto simp: classify_move_def Let_def split: if_splits)






lemma e4_material: "getMaterialBalance start_fen = 0" "getMaterialBalance e4_fen = 0"
  by (simp_all add: getMaterialBalance_def start_fen_def e4_fen_def split_first_def vals_def)

lemma e4_phase: "getGamePhase start_fen 0 = Opening"
  by (simp add: getGamePhase_def start_fen_def split_first_def)

lemma e4_classify:
  "classify_move stub_fen_api [] e4_logic (e4_scan w b) 0 =
     Inr (e4_class (tier_cascade 0 (js_minus w (- b)) (Some ''e2e4'') e2e4) w (- b))"
  by (simp add: classify_move_def e4_scan_eq e4_logic_eq e4_material e4_phase Let_def e4_class_def
        mate_collapse_def e2e4_def engine_best_san_def stub_fen_api_def substring_def
        context_tags_def missed_mate_tags_def kick_tags_def next_best_def split_first_def
        bad_move_tags_def material_tags_def threat_tags_def fork_tags_def positional_tags_def
        trade_tags_def opt_includes_def opt_startsWith_def startsWith_def hung_piece_def
        getOpening_def edge_pawn_re_def)

lemma e4_classify_best:
  "classify_move stub_fen_api [] e4_logic (e4_scan 0.25 0.5) 0 = Inr (e4_class Best 0.25 (- 0.5))"
  by (simp add: e4_classify e4_losses tier_cascade_def BOOK_MOVES_def truthy_def e2e4_def)

text \<open>
  C1, as the claim states it, fails inside the book window: in the game 1. e4 with the
  evaluation 0.25 before and after the move, the played move e2e4 is the engine's best move
  at the start position, the loss is 0, and the tier is Book.
\<close>

theorem engine_best_not_always_best:
  "classify_move stub_fen_api [] e4_logic (e4_scan 0.25 (-0.25)) 0 = Inr (e4_class Book 0.25 0.25) \<and>
   c_engineBest (e4_class Book 0.25 0.25) = Some (c_from (e4_class Book 0.25 0.25) @ c_to (e4_class Book 0.25 0.25)) \<and>
   c_cls (e4_class Book 0.25 0.25) = Book"
  by (simp add: e4_classify e4_losses tier_cascade_def BOOK_MOVES_def)
     (simp add: e4_class_def e4_losses)

text \<open>
  C1, amended. When the played move's squares, concatenated, are the engine-best move
  recorded for the position before the move (a non-empty string), the tier is Book if the
  half-move index is below 6 and \<open>|cpLoss| < 0.5\<close>, and otherwise Brilliant if
  \<open>cpLoss \<le> -2.0\<close>, Great if \<open>-2.0 < cpLoss \<le> -1.0\<close>, and Best in every other case. At
  every index and for every loss it is none of Good, Inaccuracy, Mistake and Blunder.
\<close>

theorem engine_best_tier:
  assumes "classify_move F table l sc m = Inr c"
    and "c_engineBest c = Some (c_from c @ c_to c)"
    and "c_from c @ c_to c \<noteq> []"
  shows "c_cls c =
           (if m < 6 \<and> \<bar>c_cpLoss c\<bar> < 0.5 then Book
            else if c_cpLoss c \<le> -2.0 then Brilliant
            else if c_cpLoss c \<le> -1.0 then Great
            else Best) \<and>
         c_cls c \<noteq> Good \<and> c_cls c \<noteq> Inaccuracy \<and> c_cls c \<noteq> Mistake \<and> c_cls c \<noteq> Blunder"
proof -
  have m: "Some (sq_from (squares l ! m) @ sq_to (squares l ! m)) = c_engineBest c"
    using assms(2) classify_move_fields(5,6) [OF assms(1)] by simp
  have t: "truthy (c_engineBest c)"
    using assms(2,3) by (simp add: truthy_def)
  show ?thesis
    using m t by (simp add: classify_move_fields(7) [OF assms(1)] tier_cascade_def BOOK_MOVES_def)
qed

theorem engine_best_tier_witness:
  "classify_move stub_fen_api [] e4_logic (e4_scan 0.25 0.5) 0 = Inr (e4_class Best 0.25 (- 0.5)) \<and>
   c_engineBest (e4_class Best 0.25 (- 0.5)) = Some ''e2e4'' \<and>
   c_from (e4_class Best 0.25 (- 0.5)) @ c_to (e4_class Best 0.25 (- 0.5)) = ''e2e4'' \<and>
   c_cpLoss (e4_class Best 0.25 (- 0.5)) = 0.75 \<and>
   c_cls (e4_class Best 0.25 (- 0.5)) = Best"
proof -
  note h = e4_classify_best
  have e: "c_engineBest (e4_class Best 0.25 (- 0.5)) =
           Some (c_from (e4_class Best 0.25 (- 0.5)) @ c_to (e4_class Best 0.25 (- 0.5)))"
    by (simp add: e4_class_def)
  have n: "c_from (e4_class Best 0.25 (- 0.5)) @ c_to (e4_class Best 0.25 (- 0.5)) \<noteq> []"
    by (simp add: e4_class_def)
  show ?thesis
    using h engine_best_tier [OF h e n] by (simp add: e4_class_def e4_losses)
qed



subsection \<open>The analysis as a whole\<close>

text \<open>
  A timeline that \<open>loadPGN\<close> has built has one position more than it has moves and a
  move record for every move. On such a timeline the analysis throws nothing: it returns
  the scan of the first loop and, for every half-move, what the body of the second loop
  gives for it.
\<close>

lemma classify_total:
  assumes "length (fens l) = Suc (length (sans l))" and "length (squares l) = length (sans l)"
    and "m < length (sans l)"
  shows "\<exists>c. classify_move F table l (eval_positions F evalAsync d onP (fens l) s0) m = Inr c"
  using assms by (simp add: classify_move_def scan_lengths Let_def)

lemma collect_Inr:
  "collect xs = Inr vs \<Longrightarrow> length vs = length xs \<and> (\<forall>i<length xs. xs ! i = Inr (vs ! i))"
proof (induction xs arbitrary: vs)
  case Nil
  then show ?case by simp
next
  case (Cons x xs)
  then obtain v ws where x: "x = Inr v" and ws: "collect xs = Inr ws" and vs: "vs = v # ws"
    by (auto split: sum.splits)
  show ?case using Cons.IH [OF ws] by (auto simp: x vs nth_Cons split: nat.splits)
qed

lemma collect_total:
  "(\<forall>x\<in>set xs. \<exists>v. x = Inr v) \<Longrightarrow> \<exists>vs. collect xs = Inr vs"
  by (induction xs) auto

lemma analyze_link:
  assumes "analyzeFullGame F table evalAsync s0 l d onP = Inr (cs, sc)"
  shows "sc = eval_positions F evalAsync d onP (fens l) s0"
    and "length cs = length (sans l)"
    and "m < length (sans l) \<Longrightarrow> classify_move F table l sc m = Inr (cs ! m)"
proof -
  let ?sc = "eval_positions F evalAsync d onP (fens l) s0"
  from assms have c: "collect (map (classify_move F table l ?sc) [0..<length (sans l)]) = Inr cs"
    and s: "sc = ?sc"
    by (auto simp: analyzeFullGame_def Let_def split: sum.splits)
  show "sc = ?sc" by (rule s)
  show "length cs = length (sans l)" using collect_Inr [OF c] by simp
  show "classify_move F table l sc m = Inr (cs ! m)" if "m < length (sans l)"
    using collect_Inr [OF c] that by (simp add: s)
qed

lemma analyze_total:
  assumes "length (fens l) = Suc (length (sans l))" and "length (squares l) = length (sans l)"
  shows "\<exists>cs. analyzeFullGame F table evalAsync s0 l d onP =
               Inr (cs, eval_positions F evalAsync d onP (fens l) s0)"
proof -
  let ?sc = "eval_positions F evalAsync d onP (fens l) s0"
  have "\<forall>x\<in>set (map (classify_move F table l ?sc) [0..<length (sans l)]). \<exists>v. x = Inr v"
    using classify_total [OF assms] by auto
  then obtain cs where "collect (map (classify_move F table l ?sc) [0..<length (sans l)]) = Inr cs"
    using collect_total by blast
  then show ?thesis by (simp add: analyzeFullGame_def Let_def)
qed

lemma classification_at_analysis:
  assumes "length (fens l) = Suc (length (sans l))" and "length (squares l) = length (sans l)"
    and "classify_move F table l (eval_positions F evalAsync d onP (fens l) s0) m = Inr c"
  shows "classification_at m (analyzeFullGame F table evalAsync s0 l d onP) = Some c"
proof -
  have "\<exists>cs. analyzeFullGame F table evalAsync s0 l d onP =
               Inr (cs, eval_positions F evalAsync d onP (fens l) s0)"
    by (rule analyze_total [OF assms(1,2)])
  then obtain cs where a: "analyzeFullGame F table evalAsync s0 l d onP =
                             Inr (cs, eval_positions F evalAsync d onP (fens l) s0)" ..
  have m: "m < length (sans l)"
    using assms(3) by (auto simp: classify_move_def split: if_splits)
  show ?thesis
    using analyze_link(2,3) [OF a] m assms(3) by (simp add: classification_at_def a)
qed

subsection \<open>The recorded loss\<close>





lemmas classify_unfold =
  classify_move_def Let_def mate_collapse_def engine_best_san_def stub_fen_api_def example_fen_api_def substring_def
  context_tags_def missed_mate_tags_def kick_tags_def next_best_def split_first_def
  bad_move_tags_def material_tags_def threat_tags_def fork_tags_def positional_tags_def
  trade_tags_def opt_includes_def opt_startsWith_def startsWith_def hung_piece_def
  getOpening_def edge_pawn_re_def






subsection \<open>Trades\<close>

lemma trade_tags_code:
  "trade_tags 0 san isWhiteMove scoreBefore =
     (if str_includes san ''x'' then
        (if (isWhiteMove \<and> scoreBefore < -300) \<or> (\<not> isWhiteMove \<and> scoreBefore > 300)
         then [''bad_trade''] else [''allowed_trade''])
      else [])"
  by (simp add: trade_tags_def)

lemma setup_scan_tail:
  "length (evals setup_scan) = 8"
  "evals setup_scan ! 6 =
     \<lparr>score = - (35 / 4), isMate = False, raw = Some (- (35 / 4)), pv = Some ''d2d4 g5g2''\<rparr>"
  "evals setup_scan ! 7 =
     \<lparr>score = - (41 / 4), isMate = False, raw = Some (- (41 / 4)), pv = Some ''d2d4 g5g2''\<rparr>"
  "length (bestMoves setup_scan) = 8"
  "bestMoves setup_scan ! 6 = Some ''d2d4''"
  by (simp_all add: setup_scan_def setup_engine_def setup_logic_eq setup_fens_def eval_positions_def upt8
        eval_position_def Let_def stub_fen_api_def example_fen_api_def scripted_engine_def cp_result_def
        start_fen_def e4_fen_def e5_fen_def queen_down_fen_def mate_fen_def report_def
        to_number_def quarter_scores cp_negative split_first_def)

lemma queen_down_material: "getMaterialBalance queen_down_fen = - 9"
  by (simp add: getMaterialBalance_def queen_down_fen_def split_first_def vals_def)

lemma queen_down_phase: "getGamePhase queen_down_fen 6 = Opening"
  by (simp add: getGamePhase_def queen_down_fen_def split_first_def)

text \<open>
  C6. The claim puts the boundary between \<open>bad_trade\<close> and \<open>allowed_trade\<close> at three
  pawns, and so does the comment beside the test. The code compares the evaluation
  before the move, which is in pawns, with -300 and 300. A failing input: the transcript
  \<open>setup_pgn\<close> gives a start position in its header (the standard one with White's
  king's bishop on c4) and the moves 1. e4 e5 2. Qh5 g6 3. Qg5 Qxg5 4. Bxf7+. The rules
  library accepts it; \<open>loadPGN\<close> then resets the game and replays the moves from the
  standard start position, where 4. Bxf7+ is not legal: \<open>move\<close> returns null, which
  \<open>loadPGN\<close> does not test, and the move and an unchanged position are recorded. So
  positions 6 and 7 of the timeline are the same position, in which White has lost the
  queen for nothing, and half-move 6 is a capture by its SAN with no material change.
  When the engine reports -875 and then -1025 centipawns for White on the two requests
  for this position, the analysis of the timeline records for half-move 6 the loss 1.5
  and the tags \<open>is_check\<close>, \<open>is_capture\<close> and \<open>allowed_trade\<close>, although White was 8.75
  pawns down before the move.
\<close>

theorem trade_threshold_failing_input:
  "loadPGN setup_chess (ChessLogic_new setup_chess) setup_pgn = (True, setup_logic) \<and>
   fens setup_logic = setup_fens @ [queen_down_fen] \<and>
   fens setup_logic ! 6 = queen_down_fen \<and>
   fens setup_logic ! 7 = queen_down_fen \<and>
   sans setup_logic ! 6 = ''Bxf7+'' \<and>
   sq_color (squares setup_logic ! 6) = White \<and>
   classification_at 6 (analyzeFullGame example_fen_api [] setup_engine 0 setup_logic 12 True) =
     Some trade_class \<and>
   c_evalBefore trade_class = - 8.75 \<and>
   c_cpLoss trade_class = 1.5 \<and>
   c_matAfter trade_class - c_matBefore trade_class = 0 \<and>
   c_tags trade_class = [''is_check'', ''is_capture'', ''allowed_trade'']"
proof -
  have shape: "length (fens setup_logic) = Suc (length (sans setup_logic))"
    "length (squares setup_logic) = length (sans setup_logic)"
    by (simp_all add: setup_logic_def loadPGN_shape)
  have "classify_move example_fen_api [] setup_logic setup_scan 6 = Inr trade_class"
    using double_04
    by (simp add: classify_unfold setup_scan_tail setup_logic_eq setup_moves_def setup_fens_def
          queen_down_material queen_down_phase quarter_scores trade_class_def tier_cascade_def
          BOOK_MOVES_def truthy_def)
  then have "classification_at 6
               (analyzeFullGame example_fen_api [] setup_engine 0 setup_logic 12 True) =
             Some trade_class"
    unfolding setup_scan_def by (rule classification_at_analysis [OF shape])
  then show ?thesis
    by (simp add: setup_loadPGN setup_logic_eq setup_moves_def setup_fens_def)
       (simp add: trade_class_def)
qed

section \<open>Properties of the engine session\<close>

lemma silent_step: "silent e \<Longrightarrow> silent (engine_step ev e)"
  by (cases ev)
     (simp_all add: silent_def evaluate_def evalAsync_call_def stop_def setOption_def
        on_tick_def on_timeout_def Let_def)

lemma silent_run: "silent e \<Longrightarrow> silent (engine_run evs e)"
  unfolding engine_run_def
  by (induction evs arbitrary: e) (simp_all add: silent_step)

lemma silent_new: "silent (Engine_new u False)"
  by (simp add: silent_def Engine_new_def)

text \<open>
  C8, as the claim states it, fails: when the worker cannot be created the constructor
  returns normally, a call of \<open>evaluate\<close> returns the session unchanged (nothing posted,
  nothing queued, nothing raised), and the promise of an \<open>evalAsync\<close> call is still
  waiting in its interval after the interval and a timer event have run; the only trace
  of the failure is a console message.
\<close>

theorem failed_start_drops_requests:
  "thrown (Engine_new True False) = False \<and>
   evaluate start_fen 14 (Engine_new True False) = Engine_new True False \<and>
   resolved (engine_run [CallEvalAsync start_fen 12, Tick 0, Tick 0, Timeout 1] (Engine_new True False)) = [] \<and>
   pollers (engine_run [CallEvalAsync start_fen 12, Tick 0, Tick 0, Timeout 1] (Engine_new True False)) =
     [PollAsync 0 start_fen 12] \<and>
   console (engine_run [CallEvalAsync start_fen 12, Tick 0, Tick 0, Timeout 1] (Engine_new True False)) =
     [''Could not create Stockfish worker:'']"
  by (simp add: engine_run_def Engine_new_def evaluate_def evalAsync_call_def on_tick_def
        on_timeout_def Let_def)

text \<open>
  C8, amended. When the worker cannot be created, the constructor does not throw; it
  writes one console message and returns a session without a worker. Whatever happens
  afterwards, the session has no worker, is never ready, raises nothing and posts
  nothing, and \<open>evaluate\<close>, \<open>stop\<close> and \<open>setOption\<close> return at once without any effect.
\<close>

theorem failed_start_is_silent:
  "thrown (Engine_new u False) = False \<and>
   console (Engine_new u False) = [''Could not create Stockfish worker:''] \<and>
   worker (engine_run evs (Engine_new u False)) = False \<and>
   ready (engine_run evs (Engine_new u False)) = False \<and>
   thrown (engine_run evs (Engine_new u False)) = False \<and>
   posted (engine_run evs (Engine_new u False)) = [] \<and>
   evaluate f d (engine_run evs (Engine_new u False)) = engine_run evs (Engine_new u False) \<and>
   stop (engine_run evs (Engine_new u False)) = engine_run evs (Engine_new u False) \<and>
   setOption n v (engine_run evs (Engine_new u False)) = engine_run evs (Engine_new u False)"
  using silent_run [OF silent_new]
  by (simp add: silent_def evaluate_def stop_def setOption_def) (simp add: Engine_new_def)

lemma failed_start_never_resolves:
  "resolved (engine_run evs (Engine_new u False)) = []"
  using silent_run [OF silent_new] by (simp add: silent_def)

text \<open>
  No promise is resolved twice: the promises in the resolution log of any session are
  distinct.
\<close>

lemma promises_ok_frame:
  assumes "pollers e' = pollers e" and "resolved e' = resolved e"
    and "resolveEval e' = resolveEval e" and "promises e' = promises e"
  shows "promises_ok e' = promises_ok e"
  using assms by (simp add: promises_ok_def waiting_def settled_def held_def)

lemma doEval_frame: "promises_ok (doEval f d e) = promises_ok e"
  by (rule promises_ok_frame) (simp_all add: doEval_def Let_def post_def)

lemma waitReady_parts:
  "waiting (waitReady p f d e) = waiting e" "settled (waitReady p f d e) = settled e"
  "held (waitReady p f d e) = [p]" "promises (waitReady p f d e) = promises e"
  by (simp_all add: waitReady_def Let_def waiting_def settled_def held_def post_def)

lemma on_info_frame: "promises_ok (on_info im e) = promises_ok e"
  by (rule promises_ok_frame) (simp_all add: on_info_def Let_def split: option.splits prod.splits)

lemma on_bestmove_parts:
  "waiting (on_bestmove bm e) = waiting e" "promises (on_bestmove bm e) = promises e"
  "(held (on_bestmove bm e) = held e \<and> settled (on_bestmove bm e) = settled e) \<or>
   (held (on_bestmove bm e) = [] \<and> settled (on_bestmove bm e) = settled e @ held e)"
  by (simp_all add: on_bestmove_def Let_def waiting_def settled_def held_def split: option.splits)

lemma on_timeout_parts:
  "waiting (on_timeout h e) = waiting e" "promises (on_timeout h e) = promises e"
  "(held (on_timeout h e) = held e \<and> settled (on_timeout h e) = settled e) \<or>
   (held (on_timeout h e) = [] \<and> settled (on_timeout h e) = settled e @ held e) \<or>
   (held (on_timeout h e) = [] \<and> settled (on_timeout h e) = settled e)"
  by (simp_all add: on_timeout_def Let_def waiting_def settled_def held_def post_def
        split: option.splits)

lemma promises_ok_bestmove:
  assumes "promises_ok e"
  shows "promises_ok (on_bestmove bm e)"
  using assms on_bestmove_parts(3) [of bm e]
  by (auto simp: promises_ok_def on_bestmove_parts(1,2))

lemma promises_ok_timeout:
  assumes "promises_ok e"
  shows "promises_ok (on_timeout h e)"
  using assms on_timeout_parts(3) [of h e]
  by (auto simp: promises_ok_def on_timeout_parts(1,2))

lemma promises_ok_evalAsync:
  assumes "promises_ok e"
  shows "promises_ok (evalAsync_call f d e)"
proof -
  define e1 where "e1 = e\<lparr>promises := promises e + 1\<rparr>"
  have parts: "waiting e1 = waiting e" "settled e1 = settled e" "held e1 = held e"
    "promises e1 = Suc (promises e)"
    by (simp_all add: e1_def waiting_def settled_def held_def)
  have "\<forall>p \<in> set (held e @ waiting e @ settled e). p < promises e"
    using assms by (simp add: promises_ok_def list_all_iff)
  then have old: "promises e \<notin> set (held e @ waiting e @ settled e)"
    and bound: "list_all (\<lambda>p. p < Suc (promises e)) (held e @ waiting e @ settled e)"
    by (auto simp: list_all_iff less_Suc_eq)
  show ?thesis
  proof (cases "ready e")
    case True
    then have eq: "evalAsync_call f d e = waitReady (promises e) f d e1"
      by (simp add: evalAsync_call_def Let_def e1_def)
    show ?thesis
      using assms old bound
      by (auto simp: eq promises_ok_def waitReady_parts parts)
  next
    case False
    then have eq: "evalAsync_call f d e = e1\<lparr>pollers := pollers e1 @ [PollAsync (promises e) f d]\<rparr>"
      by (simp add: evalAsync_call_def Let_def e1_def)
    have parts2: "waiting (e1\<lparr>pollers := pollers e1 @ [PollAsync (promises e) f d]\<rparr>) = waiting e @ [promises e]"
      "settled (e1\<lparr>pollers := pollers e1 @ [PollAsync (promises e) f d]\<rparr>) = settled e"
      "held (e1\<lparr>pollers := pollers e1 @ [PollAsync (promises e) f d]\<rparr>) = held e"
      "promises (e1\<lparr>pollers := pollers e1 @ [PollAsync (promises e) f d]\<rparr>) = Suc (promises e)"
      by (simp_all add: e1_def waiting_def settled_def held_def)
    show ?thesis
      using assms old bound
      by (auto simp: eq promises_ok_def parts2)
  qed
qed

lemma waiting_split:
  assumes "k < length ps"
  shows "concat (map poller_promise ps) =
         concat (map poller_promise (take k ps)) @ poller_promise (ps ! k) @
         concat (map poller_promise (drop (Suc k) ps))"
proof -
  have "ps = take k ps @ ps ! k # drop (Suc k) ps"
    using assms by (rule id_take_nth_drop)
  then have "concat (map poller_promise ps) =
             concat (map poller_promise (take k ps @ ps ! k # drop (Suc k) ps))"
    by simp
  then show ?thesis by simp
qed

lemma promises_ok_tick:
  assumes "promises_ok e"
  shows "promises_ok (on_tick k e)"
proof (cases "k < length (pollers e) \<and> ready e")
  case False
  then show ?thesis using assms by (auto simp: on_tick_def)
next
  case True
  then have k: "k < length (pollers e)" by simp
  define e1 where "e1 = e\<lparr>pollers := take k (pollers e) @ drop (k + 1) (pollers e)\<rparr>"
  define A where "A = concat (map poller_promise (take k (pollers e)))"
  define B where "B = concat (map poller_promise (drop (Suc k) (pollers e)))"
  have w: "waiting e = A @ poller_promise (pollers e ! k) @ B"
    unfolding waiting_def A_def B_def by (rule waiting_split [OF k])
  have parts: "waiting e1 = A @ B" "settled e1 = settled e" "held e1 = held e"
    "promises e1 = promises e"
    by (simp_all add: e1_def waiting_def settled_def held_def A_def B_def)
  show ?thesis
  proof (cases "pollers e ! k")
    case (PollEvaluate f d)
    then have eq: "on_tick k e = doEval f d e1"
      using True by (simp add: on_tick_def e1_def Let_def)
    have "promises_ok e1"
      using assms w PollEvaluate by (auto simp: promises_ok_def parts)
    then show ?thesis
      by (simp add: eq doEval_frame)
  next
    case (PollAsync p f d)
    then have eq: "on_tick k e = waitReady p f d e1"
      using True by (simp add: on_tick_def e1_def Let_def)
    show ?thesis
      using assms w PollAsync
      by (auto simp: eq promises_ok_def parts waitReady_parts)
  qed
qed

lemma promises_ok_message:
  assumes "promises_ok e"
  shows "promises_ok (onMessage msg e)"
proof (cases msg)
  case (Bestmove bm)
  then show ?thesis using assms by (simp add: onMessage_def promises_ok_bestmove)
next
  case (Info im)
  then show ?thesis using assms by (simp add: onMessage_def on_info_frame)
next
  case Uciok
  have "promises_ok (post ''isready'' e) = promises_ok e"
    by (rule promises_ok_frame) (simp_all add: post_def)
  then show ?thesis using assms Uciok by (simp add: onMessage_def)
next
  case Readyok
  have "promises_ok (e\<lparr>ready := True, console := console e @ [''Stockfish engine ready.'']\<rparr>) =
        promises_ok e"
    by (rule promises_ok_frame) simp_all
  then show ?thesis using assms Readyok by (simp add: onMessage_def)
qed (use assms in \<open>simp_all add: onMessage_def\<close>)

lemma promises_ok_step:
  assumes "promises_ok e"
  shows "promises_ok (engine_step ev e)"
proof (cases ev)
  case InitTimer
  have "promises_ok (engine_step InitTimer e) = promises_ok e"
    by (rule promises_ok_frame) (simp_all add: post_def)
  then show ?thesis using assms InitTimer by simp
next
  case WorkerError
  have "promises_ok (engine_step WorkerError e) = promises_ok e"
    by (rule promises_ok_frame) simp_all
  then show ?thesis using assms WorkerError by simp
next
  case (Line msg)
  then show ?thesis using assms by (simp add: promises_ok_message)
next
  case (CallEvaluate f d)
  have "promises_ok (e\<lparr>pollers := pollers e @ [PollEvaluate f d]\<rparr>) = promises_ok e"
    by (simp add: promises_ok_def waiting_def settled_def held_def)
  then show ?thesis using assms CallEvaluate by (simp add: evaluate_def doEval_frame)
next
  case (CallEvalAsync f d)
  then show ?thesis using assms by (simp add: promises_ok_evalAsync)
next
  case CallStop
  have "promises_ok (stop e) = promises_ok e"
    by (rule promises_ok_frame) (simp_all add: stop_def post_def)
  then show ?thesis using assms CallStop by simp
next
  case (CallSetOption n v)
  have "promises_ok (setOption n v e) = promises_ok e"
    by (rule promises_ok_frame) (simp_all add: setOption_def post_def)
  then show ?thesis using assms CallSetOption by simp
next
  case (Tick k)
  then show ?thesis using assms by (simp add: promises_ok_tick)
next
  case (Timeout h)
  then show ?thesis using assms by (simp add: promises_ok_timeout)
qed

lemma promises_ok_run: "promises_ok e \<Longrightarrow> promises_ok (engine_run evs e)"
  unfolding engine_run_def
  by (induction evs arbitrary: e) (simp_all add: promises_ok_step)

lemma promises_ok_new: "promises_ok (Engine_new u s)"
  by (simp add: promises_ok_def waiting_def settled_def held_def Engine_new_def Let_def)

lemma resolved_at_most_once:
  "distinct (map r_promise (resolved (engine_run evs (Engine_new u s))))"
  using promises_ok_run [OF promises_ok_new, of evs u s] by (simp add: promises_ok_def settled_def)

text \<open>
  C2. The claim says that a terminating signal of a superseded search never resolves the
  promise of a newer request. In the session \<open>race_events\<close> two searches have been
  started and one \<open>bestmove\<close> line has arrived, the answer to the first, live search;
  it resolves the promise of the awaited request, whose own search is the second, with
  depth 0, score 0 and the best move and line of the first search.
\<close>

theorem stale_bestmove_resolves_new_request:
  "posted (engine_run race_events (Engine_new True True)) =
     [''uci'', ''isready'',
      ''stop'', ''position fen '' @ start_fen, ''go depth 14'',
      ''stop'', ''position fen '' @ e4_fen, ''go depth 12''] \<and>
   bestmove_count (engine_run race_events (Engine_new True True)) = 1 \<and>
   resolved (engine_run race_events (Engine_new True True)) =
     [\<lparr>r_promise = 0, r_own_search = 2, r_own_timer = 1, r_cause = BestmoveOf 1,
       r_value = \<lparr>res_depth = 0, res_score = Some 0, res_isMate = False,
                   res_bestMove = Some ''e2e4'', res_pv = Some ''e2e4 e7e5''\<rparr>\<rparr>]"
  by (simp add: race_events_def engine_run_def Engine_new_def post_def onMessage_def evaluate_def
        doEval_def on_info_def truthy_def split_first_def evalAsync_call_def waitReady_def
        on_bestmove_def snapshot_result_def Let_def)


end
